theory Spec2Isabelle
  imports Main "HOL-Library.AList" "HOL-Library.Char_ord" "HOL-Library.List_Lexorder"
begin

section \<open>Text primitives\<close>

text \<open>
  Requirement text is a \<^typ>\<open>string\<close>, one \<^typ>\<open>char\<close> per character: the characters are
  the code points below 256, and text with a code point beyond that is outside the model.
  On these characters the tables below are those of the program's string methods and of
  \<^verbatim>\<open>re\<close> on \<^verbatim>\<open>str\<close>: the classes \<^verbatim>\<open>[A-Z]\<close> and \<^verbatim>\<open>[a-z]\<close> are the ASCII letters, while a
  word character, white space and \<^verbatim>\<open>lower()\<close> also cover the letters, digits and spaces
  from 128 to 255.
\<close>

definition ascii_uppercase :: string where
  "ascii_uppercase = ''ABCDEFGHIJKLMNOPQRSTUVWXYZ''"

definition ascii_lowercase :: string where
  "ascii_lowercase = ''abcdefghijklmnopqrstuvwxyz''"

definition ascii_digits :: string where
  "ascii_digits = ''0123456789''"

text \<open>The upper-case letters from 192 to 222 (215 is the multiplication sign) and their
  lower-case forms, 32 further on.\<close>

definition high_uppercase :: string where
  "high_uppercase =
     [CHR 0xC0, CHR 0xC1, CHR 0xC2, CHR 0xC3, CHR 0xC4, CHR 0xC5, CHR 0xC6, CHR 0xC7,
      CHR 0xC8, CHR 0xC9, CHR 0xCA, CHR 0xCB, CHR 0xCC, CHR 0xCD, CHR 0xCE, CHR 0xCF,
      CHR 0xD0, CHR 0xD1, CHR 0xD2, CHR 0xD3, CHR 0xD4, CHR 0xD5, CHR 0xD6, CHR 0xD8,
      CHR 0xD9, CHR 0xDA, CHR 0xDB, CHR 0xDC, CHR 0xDD, CHR 0xDE]"

definition high_lowercase :: string where
  "high_lowercase =
     [CHR 0xE0, CHR 0xE1, CHR 0xE2, CHR 0xE3, CHR 0xE4, CHR 0xE5, CHR 0xE6, CHR 0xE7,
      CHR 0xE8, CHR 0xE9, CHR 0xEA, CHR 0xEB, CHR 0xEC, CHR 0xED, CHR 0xEE, CHR 0xEF,
      CHR 0xF0, CHR 0xF1, CHR 0xF2, CHR 0xF3, CHR 0xF4, CHR 0xF5, CHR 0xF6, CHR 0xF8,
      CHR 0xF9, CHR 0xFA, CHR 0xFB, CHR 0xFC, CHR 0xFD, CHR 0xFE]"

text \<open>The other characters from 128 to 255 that count as letters or digits: the ordinal
  indicators, the micro sign, the superscript digits, the fractions, and the lower-case
  letters 223, 255 that have no upper-case form below 256.\<close>

definition high_alnum :: string where
  "high_alnum =
     [CHR 0xAA, CHR 0xB2, CHR 0xB3, CHR 0xB5, CHR 0xB9, CHR 0xBA, CHR 0xBC, CHR 0xBD, CHR 0xBE,
      CHR 0xDF, CHR 0xFF]"

definition whitespace :: string where
  "whitespace = [CHR '' '', CHR 0x09, CHR 0x0A, CHR 0x0B, CHR 0x0C, CHR 0x0D,
                 CHR 0x1C, CHR 0x1D, CHR 0x1E, CHR 0x1F, CHR 0x85, CHR 0xA0]"

definition is_upper :: "char \<Rightarrow> bool" where
  "is_upper c = (c \<in> set ascii_uppercase)"

definition is_lower :: "char \<Rightarrow> bool" where
  "is_lower c = (c \<in> set ascii_lowercase)"

definition is_space :: "char \<Rightarrow> bool" where
  "is_space c = (c \<in> set whitespace)"

definition is_word :: "char \<Rightarrow> bool" where
  "is_word c =
     (is_lower c \<or> is_upper c \<or> c \<in> set ascii_digits \<or> c = CHR ''_''
      \<or> c \<in> set high_uppercase \<or> c \<in> set high_lowercase \<or> c \<in> set high_alnum)"

definition lower_char :: "char \<Rightarrow> char" where
  "lower_char c =
     (case map_of (zip (ascii_uppercase @ high_uppercase) (ascii_lowercase @ high_lowercase)) c of
        Some d \<Rightarrow> d | None \<Rightarrow> c)"

text \<open>\<^verbatim>\<open>upper()\<close> of one character, for \<^verbatim>\<open>title()\<close>; the program applies \<^verbatim>\<open>title()\<close> to
  its own keywords only, which are ASCII.\<close>

definition upper_char :: "char \<Rightarrow> char" where
  "upper_char c = (case map_of (zip ascii_lowercase ascii_uppercase) c of
                     Some d \<Rightarrow> d | None \<Rightarrow> c)"

text \<open>\<^verbatim>\<open>s.lower()\<close>\<close>

definition lower :: "string \<Rightarrow> string" where
  "lower s = map lower_char s"

text \<open>\<^verbatim>\<open>s.title()\<close>: a cased character is upper-cased after an uncased one and
  lower-cased after a cased one. The cased characters here are the ASCII letters, which
  is all that the keywords passed to it contain.\<close>

fun title_from :: "bool \<Rightarrow> string \<Rightarrow> string" where
  "title_from prev_cased [] = []"
| "title_from prev_cased (c # cs) =
     (if is_upper c \<or> is_lower c
      then (if prev_cased then lower_char c else upper_char c) # title_from True cs
      else c # title_from False cs)"

definition title :: "string \<Rightarrow> string" where
  "title s = title_from False s"

text \<open>\<^verbatim>\<open>s.startswith(p)\<close>, \<^verbatim>\<open>a in s\<close> and \<^verbatim>\<open>s.find(a)\<close> (which is \<open>-1\<close> when
  \<open>a\<close> does not occur).\<close>

fun starts_with :: "string \<Rightarrow> string \<Rightarrow> bool" where
  "starts_with [] s = True"
| "starts_with (c # cs) [] = False"
| "starts_with (c # cs) (d # ds) = (c = d \<and> starts_with cs ds)"

fun is_substr :: "string \<Rightarrow> string \<Rightarrow> bool" where
  "is_substr a [] = (a = [])"
| "is_substr a (c # cs) = (starts_with a (c # cs) \<or> is_substr a cs)"

fun py_find :: "string \<Rightarrow> string \<Rightarrow> int" where
  "py_find a [] = (if a = [] then 0 else - 1)"
| "py_find a (c # cs) =
     (if starts_with a (c # cs) then 0
      else (let r = py_find a cs in if r < 0 then - 1 else r + 1))"

text \<open>\<^verbatim>\<open>s.strip()\<close> and \<^verbatim>\<open>sep.join(xs)\<close>\<close>

definition strip :: "string \<Rightarrow> string" where
  "strip s = rev (dropWhile is_space (rev (dropWhile is_space s)))"

fun join :: "string \<Rightarrow> string list \<Rightarrow> string" where
  "join sep [] = []"
| "join sep [x] = x"
| "join sep (x # y # ys) = x @ sep @ join sep (y # ys)"

text \<open>\<^verbatim>\<open>s.replace(old, new)\<close>: occurrences are replaced from the left and do not
  overlap; the counter is the number of characters of the current occurrence still to
  be passed over.\<close>

fun replace_from :: "string \<Rightarrow> string \<Rightarrow> nat \<Rightarrow> string \<Rightarrow> string" where
  "replace_from old new k [] = []"
| "replace_from old new (Suc k) (c # cs) = replace_from old new k cs"
| "replace_from old new 0 (c # cs) =
     (if starts_with old (c # cs) then new @ replace_from old new (length old - 1) cs
      else c # replace_from old new 0 cs)"

definition replace :: "string \<Rightarrow> string \<Rightarrow> string \<Rightarrow> string" where
  "replace old new s =
     (if old = [] then new @ concat (map (\<lambda>c. c # new) s) else replace_from old new 0 s)"

text \<open>\<^verbatim>\<open>str(n)\<close> for a natural number.\<close>

function str_nat :: "nat \<Rightarrow> string" where
  "str_nat n =
     (if n < 10 then [ascii_digits ! n]
      else str_nat (n div 10) @ [ascii_digits ! (n mod 10)])"
  by pat_completeness auto
termination
  by (relation "measure id") auto

section \<open>The regular expressions of the program\<close>

text \<open>
  The patterns handed to \<^verbatim>\<open>re\<close> are sequences of: a literal, an alternation of
  literals, one character of a class, a greedy \<^verbatim>\<open>*\<close> or \<^verbatim>\<open>+\<close> over a class, the
  word boundary \<^verbatim>\<open>\b\<close> and the end anchor \<^verbatim>\<open>$\<close>. A matcher state is the character
  before the current position (if any) and the text still ahead. Each atom yields its
  possible continuations in the order in which the backtracking matcher tries them, so
  the head of the result is the match that \<^verbatim>\<open>re\<close> reports.
\<close>

datatype cclass = Upper | Lower | WordC | Space

fun in_class :: "cclass \<Rightarrow> char \<Rightarrow> bool" where
  "in_class Upper c = is_upper c"
| "in_class Lower c = is_lower c"
| "in_class WordC c = is_word c"
| "in_class Space c = is_space c"

datatype atom = Lit string | Alt "string list" | One cclass | Star cclass | Plus cclass
  | Bnd | Eol

type_synonym mstate = "char option \<times> string"

definition at_boundary :: "char option \<Rightarrow> string \<Rightarrow> bool" where
  "at_boundary p s =
     ((case p of None \<Rightarrow> False | Some c \<Rightarrow> is_word c) \<noteq>
      (case s of [] \<Rightarrow> False | c # _ \<Rightarrow> is_word c))"

fun lit_steps :: "string \<Rightarrow> mstate \<Rightarrow> mstate list" where
  "lit_steps l (p, s) =
     (if starts_with l s
      then [(if l = [] then p else Some (last l), drop (length l) s)] else [])"

fun star_steps :: "cclass \<Rightarrow> char option \<Rightarrow> string \<Rightarrow> mstate list" where
  "star_steps k p [] = [(p, [])]"
| "star_steps k p (c # cs) =
     (if in_class k c then star_steps k (Some c) cs @ [(p, c # cs)] else [(p, c # cs)])"

fun atom_steps :: "atom \<Rightarrow> mstate \<Rightarrow> mstate list" where
  "atom_steps (Lit l) st = lit_steps l st"
| "atom_steps (Alt ls) st = concat (map (\<lambda>l. lit_steps l st) ls)"
| "atom_steps (One k) (p, s) =
     (case s of [] \<Rightarrow> [] | c # cs \<Rightarrow> if in_class k c then [(Some c, cs)] else [])"
| "atom_steps (Star k) (p, s) = star_steps k p s"
| "atom_steps (Plus k) (p, s) =
     (case s of [] \<Rightarrow> [] | c # cs \<Rightarrow> if in_class k c then star_steps k (Some c) cs else [])"
| "atom_steps Bnd (p, s) = (if at_boundary p s then [(p, s)] else [])"
| "atom_steps Eol (p, s) = (if s = [] \<or> s = [CHR 0x0A] then [(p, s)] else [])"

fun match_seq :: "atom list \<Rightarrow> mstate \<Rightarrow> mstate list" where
  "match_seq [] st = [st]"
| "match_seq (a # as) st = concat (map (match_seq as) (atom_steps a st))"

text \<open>\<^verbatim>\<open>re.match(pat, s)\<close> and \<^verbatim>\<open>re.search(pat, s)\<close>, as truth values.\<close>

definition re_match :: "atom list \<Rightarrow> string \<Rightarrow> bool" where
  "re_match pat s = (match_seq pat (None, s) \<noteq> [])"

fun search_from :: "atom list \<Rightarrow> char option \<Rightarrow> string \<Rightarrow> bool" where
  "search_from pat p [] = (match_seq pat (p, []) \<noteq> [])"
| "search_from pat p (c # cs) = (match_seq pat (p, c # cs) \<noteq> [] \<or> search_from pat (Some c) cs)"

definition re_search :: "atom list \<Rightarrow> string \<Rightarrow> bool" where
  "re_search pat s = search_from pat None s"

text \<open>\<^verbatim>\<open>re.findall(pat, s)\<close> for a pattern whose single group is the whole match: the
  matches from left to right, the scan resuming where a match ended. The counter is the
  number of characters of the last match still to be passed over.\<close>

fun findall_from :: "atom list \<Rightarrow> nat \<Rightarrow> char option \<Rightarrow> string \<Rightarrow> string list" where
  "findall_from pat k p [] = (if k = 0 \<and> match_seq pat (p, []) \<noteq> [] then [[]] else [])"
| "findall_from pat (Suc k) p (c # cs) = findall_from pat k (Some c) cs"
| "findall_from pat 0 p (c # cs) =
     (case match_seq pat (p, c # cs) of
        [] \<Rightarrow> findall_from pat 0 (Some c) cs
      | (p', s') # _ \<Rightarrow>
          (let n = length (c # cs) - length s'
           in take n (c # cs) # findall_from pat (n - 1) (Some c) cs))"

definition re_findall :: "atom list \<Rightarrow> string \<Rightarrow> string list" where
  "re_findall pat s = findall_from pat 0 None s"

section \<open>Out-of-the-box definitions\<close>

datatype entity_type = Person | Organization | Product | FieldGroup | CustomFieldGroup

fun type_name :: "entity_type \<Rightarrow> string" where
  "type_name Person = ''Person''"
| "type_name Organization = ''Organization''"
| "type_name Product = ''Product''"
| "type_name FieldGroup = ''FieldGroup''"
| "type_name CustomFieldGroup = ''CustomFieldGroup''"

text \<open>\<^verbatim>\<open>OOTB_ENTITIES[e]['standard_fields']\<close> for the three templates.\<close>

fun OOTB_ENTITIES :: "entity_type \<Rightarrow> string list" where
  "OOTB_ENTITIES Person =
     [''FirstName'', ''LastName'', ''MiddleName'', ''NamePrefix'', ''NameSuffix'',
      ''FullName'', ''DateOfBirth'', ''Gender'', ''MaritalStatus'',
      ''SSN'', ''TaxID'', ''PreferredLanguage'', ''DeceasedDate'', ''DeceasedFlag'']"
| "OOTB_ENTITIES Organization =
     [''OrganizationName'', ''LegalName'', ''DBA'', ''TaxID'', ''EIN'',
      ''OrganizationType'', ''Industry'', ''Status'', ''FoundedDate'',
      ''Website'', ''Description'']"
| "OOTB_ENTITIES Product =
     [''ProductName'', ''ProductCode'', ''SKU'', ''Description'',
      ''Category'', ''Brand'', ''Status'', ''Price'', ''UnitOfMeasure'']"
| "OOTB_ENTITIES _ = []"

text \<open>\<^verbatim>\<open>OOTB_FIELD_GROUPS\<close>: field-group name to its standard fields.\<close>

definition OOTB_FIELD_GROUPS :: "(string \<times> string list) list" where
  "OOTB_FIELD_GROUPS =
     [(''Address'',
        [''AddressLine1'', ''AddressLine2'', ''City'', ''State'', ''PostalCode'',
         ''Country'', ''AddressType'', ''PrimaryFlag'', ''StartDate'', ''EndDate'',
         ''County'', ''Region'', ''Latitude'', ''Longitude'']),
      (''Phone'',
        [''PhoneNumber'', ''PhoneType'', ''PrimaryFlag'', ''CountryCode'',
         ''AreaCode'', ''Extension'', ''StartDate'', ''EndDate'', ''DoNotCallFlag'']),
      (''Email'',
        [''EmailAddress'', ''EmailType'', ''PrimaryFlag'', ''StartDate'', ''EndDate'',
         ''DoNotEmailFlag'', ''BounceFlag'']),
      (''Identifier'',
        [''IdentifierValue'', ''IdentifierType'', ''PrimaryFlag'', ''Issuer'',
         ''StartDate'', ''EndDate'', ''VerificationStatus''])]"

section \<open>Step 1: the requirement corpus\<close>

text \<open>
  A row of the sheet \<^verbatim>\<open>Functional Requirements\<close>: the cells of the columns
  \<^verbatim>\<open>FR #\<close>, \<^verbatim>\<open>Functional Requirements Description\<close> and \<^verbatim>\<open>Comments\<close>. \<open>None\<close> is an
  empty cell (\<^verbatim>\<open>NaN\<close> in the data frame), \<open>Some s\<close> a cell whose \<^verbatim>\<open>str\<close> is \<open>s\<close>.
\<close>

record row =
  fr_cell :: "string option"
  description_cell :: "string option"
  comments_cell :: "string option"

text \<open>\<^verbatim>\<open>str(row.get(col, ''))\<close>: an empty cell prints as \<^verbatim>\<open>nan\<close>.\<close>

definition str_cell :: "string option \<Rightarrow> string" where
  "str_cell c = (case c of None \<Rightarrow> ''nan'' | Some s \<Rightarrow> s)"

definition row_text :: "row \<Rightarrow> string" where
  "row_text r = str_cell (description_cell r) @ '' '' @ str_cell (comments_cell r)"

record functional_requirement =
  fr_number :: string
  description :: string
  comments :: string
  combined_text :: string

definition extract_requirement :: "nat \<times> row \<Rightarrow> functional_requirement" where
  "extract_requirement ir =
     (case ir of (idx, r) \<Rightarrow>
        (let fr_num = (case fr_cell r of Some s \<Rightarrow> strip s
                                       | None \<Rightarrow> ''FR'' @ str_nat (idx + 1));
             fr_desc = strip (str_cell (description_cell r));
             fr_comments = (case comments_cell r of Some s \<Rightarrow> strip s | None \<Rightarrow> [])
         in \<lparr>fr_number = fr_num, description = fr_desc, comments = fr_comments,
             combined_text = lower (fr_desc @ '' '' @ fr_comments)\<rparr>))"

definition functional_requirements_of :: "row list \<Rightarrow> functional_requirement list" where
  "functional_requirements_of df = map extract_requirement (enumerate 0 df)"

definition all_text_original :: "row list \<Rightarrow> string" where
  "all_text_original df = join '' '' (map row_text df)"

definition all_text_lower :: "row list \<Rightarrow> string" where
  "all_text_lower df = lower (join '' '' (map row_text df))"

section \<open>Step 1: lexical term discovery\<close>

text \<open>\<^verbatim>\<open>\b([A-Z][a-z]+)\b\<close>\<close>

definition capitalized_pattern :: "atom list" where
  "capitalized_pattern = [Bnd, One Upper, Plus Lower, Bnd]"

definition capitalized_words :: "row list \<Rightarrow> string list" where
  "capitalized_words df = re_findall capitalized_pattern (all_text_original df)"

text \<open>\<^verbatim>\<open>Counter(words)\<close>: the counts, keyed in order of first occurrence.\<close>

definition count_word :: "string \<Rightarrow> (string \<times> nat) list \<Rightarrow> (string \<times> nat) list" where
  "count_word w acc =
     AList.update w (case map_of acc w of None \<Rightarrow> 1 | Some n \<Rightarrow> n + 1) acc"

definition Counter :: "string list \<Rightarrow> (string \<times> nat) list" where
  "Counter ws = fold count_word ws []"

definition word_counts :: "row list \<Rightarrow> (string \<times> nat) list" where
  "word_counts df = Counter (capitalized_words df)"

definition noise_words :: "string list" where
  "noise_words =
     [''Solution'', ''System'', ''Data'', ''Record'', ''Information'', ''Field'', ''Attribute'',
      ''Value'', ''Type'', ''Status'', ''Date'', ''Number'', ''Code'', ''ID'', ''Key'', ''Source'',
      ''Target'', ''The'', ''This'', ''That'', ''These'', ''Those'', ''Each'', ''Every'', ''All'',
      ''Some'', ''Any'', ''Many'', ''More'', ''Most'', ''Such'', ''Which'', ''What'', ''When'',
      ''Where'', ''How'', ''Why'', ''Who'', ''Table'', ''Column'', ''Row'', ''Sheet'', ''File'',
      ''Document'', ''Report'', ''Format'', ''Structure'', ''Model'', ''Design'', ''Process'',
      ''Step'', ''Phase'', ''Feature'', ''Function'', ''Method'', ''Approach'', ''Integration'']"

definition source_system_names :: "string list" where
  "source_system_names =
     [''Banner'', ''Workday'', ''Slate'', ''Salesforce'', ''SFAQ'', ''AffinaQuest'',
      ''IAM'', ''SF-STU'', ''Slack'', ''Snowflake'', ''Azure'', ''Reference'', ''Use'']"

text \<open>\<^verbatim>\<open>exclude_words\<close> after \<^verbatim>\<open>exclude_words.update(source_system_names)\<close>; only
  membership is ever asked of it.\<close>

definition exclude_words :: "string list" where
  "exclude_words = noise_words @ source_system_names"

section \<open>Step 1: contextual classification\<close>

definition multiplicity_words :: "string list" where
  "multiplicity_words = [''multiple'', ''each'', ''per'', ''1-to-many'', ''one-to-many'', ''many'']"

definition field_group_words :: "string list" where
  "field_group_words = [''address'', ''phone'', ''email'', ''e-mail'', ''telephone'', ''contact'']"

definition person_words :: "string list" where
  "person_words = [''individual'', ''person'', ''people'', ''human'', ''citizen'', ''resident'',
                   ''member'', ''participant'']"

definition organization_words :: "string list" where
  "organization_words = [''company'', ''organization'', ''organisation'', ''institution'', ''corp'',
                         ''corporation'', ''business'', ''firm'', ''enterprise'']"

definition product_words :: "string list" where
  "product_words = [''product'', ''item'', ''goods'', ''merchandise'', ''commodity'', ''article'',
                    ''sku'']"

definition containment_words :: "string list" where
  "containment_words = [''has'', ''have'', ''contains'', ''includes'', ''with'']"

text \<open>\<^verbatim>\<open>\b(w1|...|wn)\s+\w*\s*\<close> followed by the escaped term, and \<^verbatim>\<open>\b(w1|...|wn)\b\<close>.\<close>

definition phrase_pattern :: "string list \<Rightarrow> string \<Rightarrow> atom list" where
  "phrase_pattern ws word_lower = [Bnd, Alt ws, Plus Space, Star WordC, Star Space, Lit word_lower]"

definition cue_pattern :: "string list \<Rightarrow> atom list" where
  "cue_pattern ws = [Bnd, Alt ws, Bnd]"

text \<open>The \<^verbatim>\<open>if\<close>/\<^verbatim>\<open>elif\<close> chain run on one row that contains the term: the type it
  assigns, or \<open>None\<close> when no branch is taken and \<^verbatim>\<open>entity_type\<close> keeps its value.\<close>

definition row_entity_type :: "string \<Rightarrow> string \<Rightarrow> entity_type option" where
  "row_entity_type word_lower text_lower =
     (if re_search (phrase_pattern multiplicity_words word_lower) text_lower then
        (if re_search (cue_pattern field_group_words)
              (take (nat (py_find word_lower text_lower + 200)) text_lower)
         then Some FieldGroup else Some CustomFieldGroup)
      else if re_search (cue_pattern person_words) text_lower then Some Person
      else if re_search (cue_pattern organization_words) text_lower then Some Organization
      else if re_search (cue_pattern product_words) text_lower then Some Product
      else if re_search (phrase_pattern containment_words word_lower) text_lower
        then Some CustomFieldGroup
      else None)"

text \<open>One pass of \<^verbatim>\<open>for _, row in df.iterrows()\<close>: the loop state is \<^verbatim>\<open>entity_type\<close>
  (\<open>None\<close> at the start) and the \<^verbatim>\<open>context\<close> list.\<close>

definition scan_row :: "string \<Rightarrow> row \<Rightarrow> entity_type option \<times> string list
    \<Rightarrow> entity_type option \<times> string list" where
  "scan_row word_lower r st =
     (case st of (entity_type, context) \<Rightarrow>
        (let text = row_text r; text_lower = lower text
         in if is_substr word_lower text_lower
            then ((case row_entity_type word_lower text_lower of
                     Some t \<Rightarrow> Some t | None \<Rightarrow> entity_type),
                  (if text_lower \<in> set context then context else context @ [take 200 text]))
            else (entity_type, context)))"

definition scan_rows :: "string \<Rightarrow> row list \<Rightarrow> entity_type option \<times> string list" where
  "scan_rows word_lower df = fold (scan_row word_lower) df (None, [])"

text \<open>\<^verbatim>\<open>re.match(r'^(address|phone|email|e-mail|telephone|contact)$', word_lower)\<close>\<close>

definition final_pattern :: "atom list" where
  "final_pattern = [Alt field_group_words, Eol]"

definition final_type :: "string \<Rightarrow> entity_type option \<Rightarrow> entity_type" where
  "final_type word_lower entity_type =
     (case entity_type of
        Some t \<Rightarrow> t
      | None \<Rightarrow> if re_match final_pattern word_lower then FieldGroup else Person)"

record candidate =
  cand_type :: entity_type
  cand_context :: string
  cand_frequency :: nat

definition classify_term :: "row list \<Rightarrow> string \<times> nat \<Rightarrow> string \<times> candidate" where
  "classify_term df wc =
     (case wc of (word, count) \<Rightarrow>
        (case scan_rows (lower word) df of (entity_type, context) \<Rightarrow>
           (word, \<lparr>cand_type = final_type (lower word) entity_type,
                   cand_context = join '' '' (take 3 context),
                   cand_frequency = count\<rparr>)))"

definition retained :: "row list \<Rightarrow> string \<times> nat \<Rightarrow> bool" where
  "retained df wc =
     (case wc of (word, count) \<Rightarrow>
        count \<ge> 3 \<and> word \<notin> set exclude_words \<and> is_substr (lower word) (all_text_lower df))"

definition entities_found :: "row list \<Rightarrow> (string \<times> candidate) list" where
  "entities_found df = map (classify_term df) (filter (retained df) (word_counts df))"

section \<open>Step 1: business entities\<close>

record business_entity =
  be_name :: string
  be_type :: entity_type
  be_purpose :: string

definition is_master :: "entity_type \<Rightarrow> bool" where
  "is_master t = (t \<in> set [Person, Organization, Product])"

text \<open>\<^verbatim>\<open>sorted(entities_found.items(), key=frequency, reverse=True)\<close>: a stable sort, so
  candidates of equal frequency keep their order.\<close>

definition sorted_entities :: "(string \<times> candidate) list \<Rightarrow> (string \<times> candidate) list" where
  "sorted_entities found = sort_key (\<lambda>e. - int (cand_frequency (snd e))) found"

definition make_entity :: "string \<Rightarrow> candidate \<Rightarrow> business_entity" where
  "make_entity entity_name entity_info =
     (let entity_type = cand_type entity_info;
          canonical_name = (if is_master entity_type then type_name entity_type else entity_name);
          purpose =
            (if cand_context entity_info \<noteq> []
             then (if length (cand_context entity_info) > 150
                   then take 150 (cand_context entity_info) @ ''...''
                   else cand_context entity_info)
             else (if is_master entity_type
                   then canonical_name @ '' master entity in MDM model''
                   else canonical_name @ '' field group''))
      in \<lparr>be_name = canonical_name, be_type = entity_type, be_purpose = purpose\<rparr>)"

text \<open>The loop over \<^verbatim>\<open>sorted_entities\<close>; the first argument is
  \<^verbatim>\<open>master_entity_types_found\<close>.\<close>

fun build_entities :: "entity_type list \<Rightarrow> (string \<times> candidate) list \<Rightarrow> business_entity list" where
  "build_entities seen [] = []"
| "build_entities seen ((entity_name, entity_info) # rest) =
     (if is_master (cand_type entity_info)
      then (if cand_type entity_info \<in> set seen then build_entities seen rest
            else make_entity entity_name entity_info
                   # build_entities (cand_type entity_info # seen) rest)
      else make_entity entity_name entity_info # build_entities seen rest)"

definition business_entities_of :: "(string \<times> candidate) list \<Rightarrow> business_entity list" where
  "business_entities_of found = build_entities [] (sorted_entities found)"

section \<open>Step 1: source systems\<close>

record source_system =
  ss_name :: string
  ss_connection :: string
  ss_context :: string

text \<open>\<^verbatim>\<open>known_sources\<close>: name, connection types, keywords.\<close>

definition known_sources :: "(string \<times> string list \<times> string list) list" where
  "known_sources =
     [(''Banner'', [''JDBC'', ''jdbc''], [''banner'', ''ellucian banner'']),
      (''Workday'', [''SOAP API'', ''SOAP'', ''soap''], [''workday'']),
      (''Slate'', [''API'', ''api''], [''slate'']),
      (''Salesforce'', [''API'', ''api''], [''salesforce'', ''sf'']),
      (''SFAQ'', [''API'', ''api''], [''sfaq'', ''affinaquest'']),
      (''AffinaQuest'', [''API'', ''api''], [''affinaquest'', ''sfaq'']),
      (''IAM'', [''API'', ''Message Queue'', ''RabbitMQ''], [''iam'']),
      (''SF-STU'', [''API'', ''api''], [''sf-stu'', ''sfstu'']),
      (''Slack'', [''API'', ''api''], [''slack'']),
      (''Snowflake'', [''Database'', ''database''], [''snowflake''])]"

text \<open>The first connection type found in the text, else the first of the table entry
  (every entry of \<open>known_sources\<close> has one).\<close>

definition find_connection :: "string list \<Rightarrow> string \<Rightarrow> string" where
  "find_connection connection_types combined =
     (case filter (\<lambda>conn_type. is_substr (lower conn_type) (lower combined)) connection_types of
        conn_type # _ \<Rightarrow> conn_type
      | [] \<Rightarrow> (case connection_types of conn_type # _ \<Rightarrow> conn_type | [] \<Rightarrow> []))"

definition note_source :: "string \<Rightarrow> string \<times> string list \<times> string list
    \<Rightarrow> source_system list \<Rightarrow> source_system list" where
  "note_source combined src found =
     (case src of (source_name, connection_types, keywords) \<Rightarrow>
        if (\<exists>keyword \<in> set keywords. is_substr (lower keyword) (lower combined))
           \<and> source_name \<notin> set (map ss_name found)
        then found @ [\<lparr>ss_name = source_name,
                        ss_connection = find_connection connection_types combined,
                        ss_context = take 200 combined\<rparr>]
        else found)"

definition source_systems_of :: "row list \<Rightarrow> source_system list" where
  "source_systems_of df =
     fold (\<lambda>r found. fold (note_source (row_text r)) known_sources found) df []"

section \<open>Step 1: attributes with their requirements\<close>

definition attribute_keywords :: "(string \<times> string list) list" where
  "attribute_keywords =
     [(''classification'', [''classification'', ''classify'']),
      (''employmentstatus'', [''full time'', ''part time'', ''employment status'',
          ''employment type'', ''temp'', ''temporary'', ''permanent'']),
      (''roletype'', [''role type'', ''role'', ''roletype'', ''position'']),
      (''relationshiptype'', [''relationship type'', ''relationship'', ''relationshiptype'',
          ''association'']),
      (''organizationname'', [''organization name'', ''company name'', ''org name'']),
      (''legalname'', [''legal name'', ''legal entity name'']),
      (''dba'', [''dba'', ''doing business as'', ''trade name'']),
      (''ein'', [''ein'', ''employer identification number'']),
      (''organizationtype'', [''organization type'', ''org type'', ''entity type'']),
      (''industry'', [''industry'', ''sector'']),
      (''website'', [''website'', ''web site'', ''url'']),
      (''foundeddate'', [''founded'', ''founded date'', ''established'', ''established date'']),
      (''description'', [''description'', ''desc'']),
      (''status'', [''status'', ''active'', ''inactive''])]"

definition attr_display_name :: "string \<Rightarrow> string" where
  "attr_display_name attr_name =
     title (replace ''status'' ''Status'' (replace ''type'' ''Type'' attr_name))"

text \<open>The body of the inner loop: \<^verbatim>\<open>custom_attributes_with_fr\<close> is a dictionary from the
  display name to the list of requirement numbers, in insertion order.\<close>

definition record_attribute :: "string \<Rightarrow> string \<Rightarrow> (string \<times> string list) list
    \<Rightarrow> (string \<times> string list) list" where
  "record_attribute attr fr_num acc =
     (case map_of acc attr of
        None \<Rightarrow> AList.update attr [fr_num] acc
      | Some frs \<Rightarrow> if fr_num \<in> set frs then acc else AList.update attr (frs @ [fr_num]) acc)"

definition scan_attribute :: "functional_requirement \<Rightarrow> string \<times> string list
    \<Rightarrow> (string \<times> string list) list \<Rightarrow> (string \<times> string list) list" where
  "scan_attribute fr entry acc =
     (case entry of (attr_name, keywords) \<Rightarrow>
        if (\<exists>keyword \<in> set keywords. is_substr keyword (combined_text fr))
        then record_attribute (attr_display_name attr_name) (fr_number fr) acc
        else acc)"

definition attribute_pass :: "(string \<times> string list) list \<Rightarrow> functional_requirement list
    \<Rightarrow> (string \<times> string list) list" where
  "attribute_pass table frs = fold (\<lambda>fr acc. fold (scan_attribute fr) table acc) frs []"

definition custom_attributes_with_fr :: "functional_requirement list
    \<Rightarrow> (string \<times> string list) list" where
  "custom_attributes_with_fr frs = attribute_pass attribute_keywords frs"

record attrs_data =
  standard :: "string list"
  custom :: "string list"
  custom_with_fr :: "(string \<times> string list) list option"

definition ootb_person_attributes :: "string list" where
  "ootb_person_attributes =
     filter (\<lambda>field. field \<notin> set [''SSN'', ''TaxID'']) (OOTB_ENTITIES Person)"

definition main_entity_name :: "business_entity list \<Rightarrow> string" where
  "main_entity_name entities =
     (case filter (\<lambda>entity. be_type entity = Person) entities of
        entity # _ \<Rightarrow> be_name entity
      | [] \<Rightarrow> ''Constituent'')"

text \<open>\<^verbatim>\<open>sorted(list(set(d.keys())))\<close> and the dictionary rebuilt in sorted key order;
  \<open>custom_with_fr\<close> is always present in what step 1 writes.\<close>

definition attributes_of :: "business_entity list \<Rightarrow> (string \<times> string list) list
    \<Rightarrow> (string \<times> attrs_data) list" where
  "attributes_of entities with_fr =
     [(main_entity_name entities,
       \<lparr>standard = ootb_person_attributes,
        custom = sort (remdups (map fst with_fr)),
        custom_with_fr =
          Some (map (\<lambda>attr. (attr, (case map_of with_fr attr of Some frs \<Rightarrow> frs | None \<Rightarrow> [])))
                    (sort (map fst with_fr)))\<rparr>)]"

section \<open>Step 1: roles and fixed rules\<close>

definition role_keywords :: "string list" where
  "role_keywords =
     [''student'', ''teacher'', ''staff'', ''manager'', ''employee'', ''contractor'', ''member'',
      ''customer'', ''supplier'', ''partner'', ''alumni'', ''donor'', ''prospect'', ''lead'',
      ''administrator'', ''user'', ''guest'', ''applicant'']"

text \<open>\<^verbatim>\<open>roles_found\<close>: role name to its context, in insertion order.\<close>

definition note_role :: "string \<Rightarrow> string \<Rightarrow> (string \<times> string) list \<Rightarrow> (string \<times> string) list" where
  "note_role combined role_keyword found =
     (if is_substr role_keyword combined \<and> title role_keyword \<notin> set (map fst found)
      then found @ [(title role_keyword, take 150 combined)] else found)"

definition roles_found :: "row list \<Rightarrow> (string \<times> string) list" where
  "roles_found df =
     fold (\<lambda>r found.
             fold (note_role (lower (str_cell (description_cell r)) @ '' ''
                              @ lower (str_cell (comments_cell r))))
                  role_keywords found) df []"

record role =
  role_name :: string
  role_purpose :: string

definition roles_of :: "row list \<Rightarrow> role list" where
  "roles_of df =
     map (\<lambda>(name, context). \<lparr>role_name = name, role_purpose = take 100 context @ ''...''\<rparr>)
         (roles_found df)"

definition matching_rules_fixed :: "(string \<times> string) list" where
  "matching_rules_fixed =
     [(''Address matching'', ''Match based on standardized address components; may use a unique key from the source system or a composite of address fields.''),
      (''Phone matching'', ''Match on normalized phone number (country and area code); uniqueness may vary based on business requirements.''),
      (''Email matching'', ''Match on lowercased, trimmed email address; not always unique depending on real-world usage.''),
      (''Address crosswalk'', ''Use reference/crosswalk tables to link and translate between keys of source and master addresses.'')]"

definition data_quality_rules_fixed :: "(string \<times> string) list" where
  "data_quality_rules_fixed =
     [(''Address standardization'', ''Centralized standardization to uniform format''),
      (''Phone standardization'', ''Centralized standardization to uniform format''),
      (''Lookup value mapping'', ''Map source values to MDM values via reference data'')]"

section \<open>Step 1: the extraction document\<close>

record step1_output =
  extraction_date :: string
  total_requirements :: nat
  source_file :: string
  functional_requirements :: "functional_requirement list"
  business_entities :: "business_entity list"
  attributes :: "(string \<times> attrs_data) list"
  relationships :: "string list"
  roles :: "role list"
  source_systems :: "source_system list"
  matching_rules :: "(string \<times> string) list"
  data_quality_rules :: "(string \<times> string) list"

text \<open>\<^verbatim>\<open>step1_extract_requirements\<close>, given the reading of the clock
  (\<^verbatim>\<open>datetime.now().isoformat()\<close>), the path of the workbook and the rows of its sheet.\<close>

definition step1_extract_requirements :: "string \<Rightarrow> string \<Rightarrow> row list \<Rightarrow> step1_output" where
  "step1_extract_requirements now excel_file df =
     (let frs = functional_requirements_of df;
          entities = business_entities_of (entities_found df)
      in \<lparr>extraction_date = now,
          total_requirements = length df,
          source_file = excel_file,
          functional_requirements = frs,
          business_entities = entities,
          attributes = attributes_of entities (custom_attributes_with_fr frs),
          relationships = [],
          roles = roles_of df,
          source_systems = source_systems_of df,
          matching_rules = matching_rules_fixed,
          data_quality_rules = data_quality_rules_fixed\<rparr>)"

section \<open>Step 2: consolidation into one template\<close>

text \<open>
  \<^verbatim>\<open>custom_fields_with_fr\<close> is a dictionary from field name to requirement numbers, kept
  in insertion order; \<open>AList.update\<close> is the assignment \<^verbatim>\<open>d[k] = v\<close>. The lists are taken
  by value: the program stores the lists of the step 1 dictionary themselves and appends
  to them, but no list is read again through another name before it is overwritten, so
  the mapping written by step 2 is the same.
\<close>

type_synonym fr_table = "(string \<times> string list) list"

text \<open>\<^verbatim>\<open>for field_name, fr_list in attrs_data['custom_with_fr'].items(): if fr_list: ...\<close>\<close>

definition merge_custom_with_fr :: "fr_table \<Rightarrow> fr_table \<Rightarrow> fr_table" where
  "merge_custom_with_fr items custom_fields =
     fold (\<lambda>(field_name, fr_list) acc.
             if fr_list \<noteq> [] then AList.update field_name fr_list acc else acc)
          items custom_fields"

text \<open>The backward-compatibility branch: fields of \<^verbatim>\<open>attrs_data['custom']\<close> enter with an
  empty list of requirements.\<close>

definition merge_custom_fallback :: "string list \<Rightarrow> fr_table \<Rightarrow> fr_table" where
  "merge_custom_fallback customs custom_fields =
     fold (\<lambda>field_name acc.
             if field_name \<notin> set (map fst acc) then AList.update field_name [] acc else acc)
          customs custom_fields"

datatype diagnostic = Skipping string

text \<open>The loop over the requirements for one field of the other template, and the
  message printed when no requirement mentions the field.\<close>

definition mention_field :: "string \<Rightarrow> functional_requirement \<Rightarrow> fr_table \<Rightarrow> fr_table" where
  "mention_field field fr acc =
     (if is_substr (lower field) (combined_text fr)
      then (case map_of acc field of
              None \<Rightarrow> AList.update field [fr_number fr] acc
            | Some frs \<Rightarrow> if fr_number fr \<in> set frs then acc
                          else AList.update field (frs @ [fr_number fr]) acc)
      else acc)"

definition justify_field :: "functional_requirement list \<Rightarrow> string
    \<Rightarrow> fr_table \<times> diagnostic list \<Rightarrow> fr_table \<times> diagnostic list" where
  "justify_field frs field st =
     (case st of (custom_fields, printed) \<Rightarrow>
        (fold (mention_field field) frs custom_fields,
         if (\<exists>fr \<in> set frs. is_substr (lower field) (combined_text fr))
         then printed else printed @ [Skipping field]))"

definition person_req_step :: "step1_output \<Rightarrow> business_entity \<Rightarrow> fr_table \<Rightarrow> fr_table" where
  "person_req_step s1 req custom_fields =
     (case map_of (attributes s1) (be_name req) of
        None \<Rightarrow> custom_fields
      | Some attrs \<Rightarrow>
          (case custom_with_fr attrs of
             Some items \<Rightarrow> merge_custom_with_fr items custom_fields
           | None \<Rightarrow> merge_custom_fallback (custom attrs) custom_fields))"

definition org_req_step_in_person :: "step1_output \<Rightarrow> string list \<Rightarrow> business_entity
    \<Rightarrow> fr_table \<times> diagnostic list \<Rightarrow> fr_table \<times> diagnostic list" where
  "org_req_step_in_person s1 all_ootb_fields org_req st =
     (case st of (custom_fields, printed) \<Rightarrow>
        (case map_of (attributes s1) (be_name org_req) of
           None \<Rightarrow> (custom_fields, printed)
         | Some attrs \<Rightarrow>
             fold (justify_field (functional_requirements s1))
                  (filter (\<lambda>org_field. org_field \<notin> set [''TaxID'']
                                       \<and> org_field \<notin> set all_ootb_fields)
                          (OOTB_ENTITIES Organization))
                  ((case custom_with_fr attrs of
                      Some items \<Rightarrow> merge_custom_with_fr items custom_fields
                    | None \<Rightarrow> custom_fields), printed)))"

definition org_req_step :: "step1_output \<Rightarrow> business_entity \<Rightarrow> fr_table \<Rightarrow> fr_table" where
  "org_req_step s1 req custom_fields =
     (case map_of (attributes s1) (be_name req) of
        None \<Rightarrow> custom_fields
      | Some attrs \<Rightarrow>
          (case custom_with_fr attrs of
             Some items \<Rightarrow> merge_custom_with_fr items custom_fields
           | None \<Rightarrow> custom_fields))"

record consolidation =
  selected_ootb_entity :: "entity_type option"
  all_ootb_fields :: "string list"
  all_custom_fields_with_fr :: fr_table
  all_requirements_consolidated :: "business_entity list"
  printed :: "diagnostic list"

definition person_requirements :: "step1_output \<Rightarrow> business_entity list" where
  "person_requirements s1 = filter (\<lambda>entity. be_type entity = Person) (business_entities s1)"

definition organization_requirements :: "step1_output \<Rightarrow> business_entity list" where
  "organization_requirements s1 =
     filter (\<lambda>entity. be_type entity = Organization) (business_entities s1)"

definition other_entity_requirements :: "step1_output \<Rightarrow> business_entity list" where
  "other_entity_requirements s1 =
     filter (\<lambda>entity. be_type entity \<notin> set [Person, Organization, CustomFieldGroup, FieldGroup])
            (business_entities s1)"

text \<open>The three-way choice of the template, each branch as the program writes it (a
  non-empty list is true).\<close>

definition consolidate :: "step1_output \<Rightarrow> consolidation" where
  "consolidate s1 =
     (let person_reqs = person_requirements s1;
          organization_reqs = organization_requirements s1
      in if person_reqs \<noteq> [] \<or> (\<not> organization_reqs \<noteq> [] \<and> \<not> person_reqs \<noteq> []) then
           (let ootb = filter (\<lambda>f. f \<notin> set [''SSN'', ''TaxID'']) (OOTB_ENTITIES Person);
                custom1 = fold (person_req_step s1) person_reqs [];
                st = (if organization_reqs \<noteq> []
                      then fold (org_req_step_in_person s1 ootb) organization_reqs (custom1, [])
                      else (custom1, []))
            in \<lparr>selected_ootb_entity = Some Person,
                all_ootb_fields = ootb,
                all_custom_fields_with_fr = fst st,
                all_requirements_consolidated =
                  person_reqs @ (if organization_reqs \<noteq> [] then organization_reqs else []),
                printed = snd st\<rparr>)
         else if organization_reqs \<noteq> [] then
           (let ootb = OOTB_ENTITIES Organization;
                custom1 = fold (org_req_step s1) organization_reqs [];
                st = (if person_reqs \<noteq> []
                      then fold (justify_field (functional_requirements s1))
                                (filter (\<lambda>person_field. person_field \<notin> set ootb)
                                        (OOTB_ENTITIES Person))
                                (custom1, [])
                      else (custom1, []))
            in \<lparr>selected_ootb_entity = Some Organization,
                all_ootb_fields = ootb,
                all_custom_fields_with_fr = fst st,
                all_requirements_consolidated =
                  organization_reqs @ (if person_reqs \<noteq> [] then person_reqs else []),
                printed = snd st\<rparr>)
         else
           \<lparr>selected_ootb_entity = None,
            all_ootb_fields = [],
            all_custom_fields_with_fr = [],
            all_requirements_consolidated = [],
            printed = []\<rparr>)"

section \<open>Step 2: the consolidation document\<close>

record entity_mapping =
  em_requirement :: string
  em_ootb_entity :: entity_type
  em_justification :: string
  em_ootb_fields_used :: "string list"
  em_custom_fields_needed :: "string list"
  em_custom_fields_with_fr :: fr_table
  em_consolidated_requirements :: "string list"

record field_group_mapping =
  fgm_requirement :: string
  fgm_ootb_field_group :: string
  fgm_justification :: string
  fgm_ootb_fields_used :: "string list"
  fgm_custom_fields_needed :: "string list"

datatype component_type = CustomEntity | CustomFieldGroupComponent

record custom_component =
  cc_type :: component_type
  cc_name :: string
  cc_justification :: string
  cc_fields :: "string list"

record step2_output =
  mapping_date :: string
  entity_mappings :: "entity_mapping list"
  field_group_mappings :: "field_group_mapping list"
  gaps :: "string list"
  custom_components :: "custom_component list"

definition justification_text :: "string list \<Rightarrow> entity_type \<Rightarrow> string" where
  "justification_text req_names selected =
     ''Consolidated all requirements ('' @ join '', '' req_names
       @ '') into single OOTB '' @ type_name selected @ '' entity. ''
       @ ''Using OOTB entity to minimize customization and leverage standard MDM capabilities. ''
       @ ''Additional fields added as custom attributes only where OOTB fields cannot accommodate requirements and are justified by functional requirements.''"

definition entity_mappings_of :: "consolidation \<Rightarrow> entity_mapping list" where
  "entity_mappings_of c =
     (case selected_ootb_entity c of
        Some selected \<Rightarrow>
          [\<lparr>em_requirement = ''Unified MDM Entity'',
            em_ootb_entity = selected,
            em_justification =
              justification_text (map be_name (all_requirements_consolidated c)) selected,
            em_ootb_fields_used = all_ootb_fields c,
            em_custom_fields_needed = map fst (all_custom_fields_with_fr c),
            em_custom_fields_with_fr = all_custom_fields_with_fr c,
            em_consolidated_requirements = map be_name (all_requirements_consolidated c)\<rparr>]
      | None \<Rightarrow> [])"

definition custom_entity_of :: "consolidation \<Rightarrow> custom_component list" where
  "custom_entity_of c =
     (case selected_ootb_entity c of
        Some selected \<Rightarrow> []
      | None \<Rightarrow>
          [\<lparr>cc_type = CustomEntity,
            cc_name = ''CustomMDMEntity'',
            cc_justification = ''No OOTB entity could accommodate all requirements. Custom entity created as last resort.'',
            cc_fields = all_ootb_fields c @ map fst (all_custom_fields_with_fr c)\<rparr>])"

text \<open>The loop over the business entities that maps the field groups.\<close>

definition field_group_step :: "business_entity \<Rightarrow> field_group_mapping list
    \<Rightarrow> field_group_mapping list" where
  "field_group_step entity acc =
     (if be_type entity = FieldGroup then
        (case map_of OOTB_FIELD_GROUPS (be_name entity) of
           Some standard_fields \<Rightarrow>
             acc @ [\<lparr>fgm_requirement = be_name entity @ '' field group'',
                     fgm_ootb_field_group = be_name entity,
                     fgm_justification = be_purpose entity,
                     fgm_ootb_fields_used = standard_fields,
                     fgm_custom_fields_needed = [''SourceSystemKey'']\<rparr>]
         | None \<Rightarrow> acc)
      else acc)"

definition custom_group_fields :: "string \<Rightarrow> string list" where
  "custom_group_fields fg_name =
     (if lower fg_name = ''role''
      then [''RoleType'', ''RoleStatus'', ''StartDate'', ''EndDate'', ''SourceSystem'',
            ''SourceSystemKey'']
      else if is_substr ''relationship'' (lower fg_name)
      then [''RelatedConstituentId'', ''RelationshipType'', ''StartDate'', ''EndDate'',
            ''SourceSystem'', ''SourceSystemKey'']
      else [''Type'', ''Status'', ''StartDate'', ''EndDate'', ''SourceSystem'',
            ''SourceSystemKey''])"

definition custom_group_step :: "business_entity \<Rightarrow> custom_component list
    \<Rightarrow> custom_component list" where
  "custom_group_step entity acc =
     (if be_type entity = CustomFieldGroup
      then acc @ [\<lparr>cc_type = CustomFieldGroupComponent,
                   cc_name = be_name entity,
                   cc_justification = be_purpose entity,
                   cc_fields = custom_group_fields (be_name entity)\<rparr>]
      else acc)"

text \<open>\<^verbatim>\<open>step2_map_ootb_entities\<close>: the document it returns and writes, and the lines it
  prints about skipped fields.\<close>

definition step2_map_ootb_entities :: "string \<Rightarrow> step1_output \<Rightarrow> step2_output" where
  "step2_map_ootb_entities now s1 =
     (let c = consolidate s1
      in \<lparr>mapping_date = now,
          entity_mappings = entity_mappings_of c,
          field_group_mappings = fold field_group_step (business_entities s1) [],
          gaps = [],
          custom_components = fold custom_group_step (business_entities s1) (custom_entity_of c)\<rparr>)"

definition step2_printed :: "step1_output \<Rightarrow> diagnostic list" where
  "step2_printed s1 = printed (consolidate s1)"

section \<open>Step 3: model assembly\<close>

datatype error = ValueError string

record field_group =
  fg_name :: string
  fg_type :: string
  fg_fields_ootb :: "string list option"
  fg_fields_custom :: "string list"

record entity_data =
  ed_name :: string
  ed_original_name :: string
  ed_type :: string
  ed_purpose :: string
  ed_identifiers :: "string list"
  ed_attributes_ootb :: "string list"
  ed_attributes_custom :: "string list"
  ed_attributes_custom_with_fr :: fr_table
  ed_field_groups :: "field_group list"

record step3_output =
  model_date :: string
  entities :: "entity_data list"

definition purpose_and_identifiers :: "entity_mapping \<Rightarrow> string \<times> string list" where
  "purpose_and_identifiers entity_mapping =
     (if em_ootb_entity entity_mapping = Person then
        (''Unified canonical master entity consolidating all requirements (person and organization data) into single Person OOTB entity. This represents the complete MDM golden record structure.'',
         [''PersonId'', ''SSN'', ''TaxID''])
      else if em_ootb_entity entity_mapping = Organization then
        (''Unified canonical master entity consolidating all requirements (person and organization data) into single Organization OOTB entity. This represents the complete MDM golden record structure.'',
         [''OrganizationId''])
      else if em_ootb_entity entity_mapping = Product then
        (''Unified canonical master entity consolidating all requirements into single Product OOTB entity. This represents the complete MDM golden record structure.'',
         [''ProductId''])
      else (em_justification entity_mapping,
            [type_name (em_ootb_entity entity_mapping) @ ''Id'']))"

definition add_ootb_group :: "field_group_mapping \<Rightarrow> field_group list \<Rightarrow> field_group list" where
  "add_ootb_group fg_mapping acc =
     (if fgm_ootb_field_group fg_mapping \<notin> set (map fg_name acc)
      then acc @ [\<lparr>fg_name = fgm_ootb_field_group fg_mapping, fg_type = ''OOTB'',
                   fg_fields_ootb = Some (fgm_ootb_fields_used fg_mapping),
                   fg_fields_custom = fgm_custom_fields_needed fg_mapping\<rparr>]
      else acc)"

definition add_identifier_group :: "field_group list \<Rightarrow> field_group list" where
  "add_identifier_group acc =
     (if ''Identifier'' \<notin> set (map fg_name acc)
      then acc @ [\<lparr>fg_name = ''Identifier'', fg_type = ''OOTB'',
                   fg_fields_ootb = map_of OOTB_FIELD_GROUPS ''Identifier'',
                   fg_fields_custom = [''SourceSystemKey'']\<rparr>]
      else acc)"

definition add_custom_group :: "custom_component \<Rightarrow> field_group list \<Rightarrow> field_group list" where
  "add_custom_group custom_comp acc =
     (if cc_type custom_comp = CustomFieldGroupComponent
         \<and> \<not> (\<exists>fg \<in> set acc. fg_name fg = cc_name custom_comp)
      then acc @ [\<lparr>fg_name = cc_name custom_comp, fg_type = ''Custom'',
                   fg_fields_ootb = None, fg_fields_custom = cc_fields custom_comp\<rparr>]
      else acc)"

text \<open>\<^verbatim>\<open>step3_design_data_model\<close>: the \<^verbatim>\<open>raise ValueError\<close> is the \<open>Inl\<close> result; the
  step 1 file it reads back serves only the report.\<close>

definition step3_design_data_model :: "string \<Rightarrow> step2_output \<Rightarrow> error + step3_output" where
  "step3_design_data_model now s2 =
     (case entity_mappings s2 of
        [] \<Rightarrow> Inl (ValueError ''Step 2 must produce at least one entity mapping. All requirements should be consolidated into a single OOTB entity.'')
      | entity_mapping # _ \<Rightarrow>
          (let pi = purpose_and_identifiers entity_mapping;
               groups1 = fold add_ootb_group (field_group_mappings s2) [];
               groups2 = add_identifier_group groups1;
               groups3 = fold add_custom_group (custom_components s2) groups2
           in Inr \<lparr>model_date = now,
                   entities =
                     [\<lparr>ed_name = type_name (em_ootb_entity entity_mapping),
                       ed_original_name = replace '' entity'' [] (em_requirement entity_mapping),
                       ed_type = ''OOTB'',
                       ed_purpose = fst pi,
                       ed_identifiers = snd pi,
                       ed_attributes_ootb = em_ootb_fields_used entity_mapping,
                       ed_attributes_custom = em_custom_fields_needed entity_mapping,
                       ed_attributes_custom_with_fr = em_custom_fields_with_fr entity_mapping,
                       ed_field_groups = groups3\<rparr>]\<rparr>))"

section \<open>Predicates used in the statements and proofs\<close>

text \<open>A requirement whose text holds one of the keywords; a requirement number that a
  table of keywords justifies for an attribute; a table in which every attribute has a
  non-empty, duplicate-free list of justified numbers.\<close>

definition keyword_hit :: "functional_requirement \<Rightarrow> string list \<Rightarrow> bool" where
  "keyword_hit fr keywords = (\<exists>keyword \<in> set keywords. is_substr keyword (combined_text fr))"

definition justified :: "(string \<times> string list) list \<Rightarrow> functional_requirement list
    \<Rightarrow> string \<Rightarrow> string \<Rightarrow> bool" where
  "justified table reqs attr n =
     (\<exists>fr \<in> set reqs. fr_number fr = n
        \<and> (\<exists>(a, kws) \<in> set table. attr_display_name a = attr \<and> keyword_hit fr kws))"

definition traceable :: "(string \<Rightarrow> string \<Rightarrow> bool) \<Rightarrow> (string \<times> string list) list \<Rightarrow> bool" where
  "traceable J d =
     (distinct (map fst d)
      \<and> (\<forall>(attr, frs) \<in> set d. frs \<noteq> [] \<and> distinct frs \<and> (\<forall>n \<in> set frs. J attr n)))"


text \<open>The types that the per-row chain assigns to a term, one for each row that contains
  the term and in which a branch is taken, in corpus order.\<close>

definition rules_fired :: "string \<Rightarrow> row list \<Rightarrow> entity_type list" where
  "rules_fired word_lower df =
     List.map_filter
       (\<lambda>r. if is_substr word_lower (lower (row_text r))
            then row_entity_type word_lower (lower (row_text r)) else None) df"





section \<open>Sample inputs\<close>

text \<open>A sheet whose only repeated capitalised term is \<^verbatim>\<open>Constituent\<close>, after a
  multiplicity word.\<close>

definition rows_constituent :: "row list" where
  "rows_constituent =
     [\<lparr>fr_cell = Some ''FR1'',
       description_cell = Some ''Each Constituent status, each Constituent, each Constituent'',
       comments_cell = None\<rparr>]"

text \<open>A term with a person cue in the first row and an organisation cue in the second.\<close>

definition rows_two_cues :: "row list" where
  "rows_two_cues =
     [\<lparr>fr_cell = None, description_cell = Some ''Donor is a person. Donor. Donor'',
       comments_cell = None\<rparr>,
      \<lparr>fr_cell = None, description_cell = Some ''Donor is a company'',
       comments_cell = Some ''x''\<rparr>]"

text \<open>A term with an organisation cue only.\<close>

definition rows_vendor :: "row list" where
  "rows_vendor =
     [\<lparr>fr_cell = Some ''FR7'', description_cell = Some ''Vendor company. Vendor. Vendor'',
       comments_cell = None\<rparr>]"

text \<open>A sheet with one requirement and no repeated capitalised term.\<close>

definition rows_no_terms :: "row list" where
  "rows_no_terms =
     [\<lparr>fr_cell = Some ''FR1'', description_cell = Some ''Store the status of a donor'',
       comments_cell = None\<rparr>]"


text \<open>A consolidation document without an entity mapping.\<close>

definition unmapped_output :: step2_output where
  "unmapped_output =
     \<lparr>mapping_date = ''2026-01-01T00:00:00'',
      entity_mappings = [],
      field_group_mappings = [],
      gaps = [],
      custom_components =
        [\<lparr>cc_type = CustomEntity, cc_name = ''CustomMDMEntity'', cc_justification = [],
          cc_fields = []\<rparr>]\<rparr>"

text \<open>Three classified candidates, two of them of the Person role.\<close>

definition found_three :: "(string \<times> candidate) list" where
  "found_three =
     [(''Clerk'', \<lparr>cand_type = Person, cand_context = ''c'', cand_frequency = 3\<rparr>),
      (''Vendor'', \<lparr>cand_type = Organization, cand_context = ''v'', cand_frequency = 4\<rparr>),
      (''Donor'', \<lparr>cand_type = Person, cand_context = ''d'', cand_frequency = 5\<rparr>)]"


section \<open>Evaluated samples\<close>

lemma entities_rows_constituent:
  "business_entities_of (entities_found rows_constituent) =
     [\<lparr>be_name = ''Constituent'', be_type = CustomFieldGroup,
       be_purpose = ''Each Constituent status, each Constituent, each Constituent nan''\<rparr>]"
  by code_simp

lemma entities_rows_vendor:
  "business_entities_of (entities_found rows_vendor) =
     [\<lparr>be_name = ''Organization'', be_type = Organization,
       be_purpose = ''Vendor company. Vendor. Vendor nan''\<rparr>]"
  by code_simp

lemma entities_rows_no_terms: "entities_found rows_no_terms = []"
  by code_simp

lemma entities_rows_two_cues:
  "business_entities_of (entities_found rows_two_cues) =
     [\<lparr>be_name = ''Organization'', be_type = Organization,
       be_purpose = ''Donor is a person. Donor. Donor nan Donor is a company x''\<rparr>]"
  by code_simp

lemma custom_attributes_rows_constituent:
  "custom_attributes_with_fr (functional_requirements_of rows_constituent) =
     [(''Status'', [''FR1''])]"
  by code_simp

lemma business_entities_step1 [simp]:
  "business_entities (step1_extract_requirements now excel_file df) =
     business_entities_of (entities_found df)"
  by (simp add: step1_extract_requirements_def Let_def)

section \<open>Template selection\<close>

lemma selected_template:
  "selected_ootb_entity (consolidate s1) =
     (if (\<exists>e \<in> set (business_entities s1). be_type e = Person)
         \<or> \<not> (\<exists>e \<in> set (business_entities s1). be_type e = Organization)
      then Some Person else Some Organization)"
  by (auto simp: consolidate_def person_requirements_def organization_requirements_def
      Let_def filter_empty_conv)

lemma template_of_mapping:
  "map em_ootb_entity (entity_mappings (step2_map_ootb_entities now s1)) =
     (if (\<exists>e \<in> set (business_entities s1). be_type e = Person)
         \<or> \<not> (\<exists>e \<in> set (business_entities s1). be_type e = Organization)
      then [Person] else [Organization])"
  by (simp add: step2_map_ootb_entities_def entity_mappings_of_def selected_template Let_def)

text \<open>
  C1. Whenever a Person-role entity was discovered, or neither a Person-role nor an
  Organization-role entity was, the template of the consolidated mapping is Person; when
  an Organization-role entity was discovered and no Person-role entity, it is
  Organization; Product is never the template.
\<close>

theorem template_selection:
  "((\<exists>e \<in> set (business_entities s1). be_type e = Person)
      \<or> (\<not> (\<exists>e \<in> set (business_entities s1). be_type e = Person)
          \<and> \<not> (\<exists>e \<in> set (business_entities s1). be_type e = Organization))
     \<longrightarrow> map em_ootb_entity (entity_mappings (step2_map_ootb_entities now s1)) = [Person])
   \<and> ((\<exists>e \<in> set (business_entities s1). be_type e = Organization)
        \<and> \<not> (\<exists>e \<in> set (business_entities s1). be_type e = Person)
     \<longrightarrow> map em_ootb_entity (entity_mappings (step2_map_ootb_entities now s1)) = [Organization])
   \<and> Product \<notin> set (map em_ootb_entity (entity_mappings (step2_map_ootb_entities now s1)))"
  by (auto simp: template_of_mapping)

theorem template_selection_witness:
  "(\<exists>e \<in> set (business_entities (step1_extract_requirements ''t1'' ''f.xlsx'' rows_vendor)).
      be_type e = Organization)
   \<and> \<not> (\<exists>e \<in> set (business_entities (step1_extract_requirements ''t1'' ''f.xlsx'' rows_vendor)).
          be_type e = Person)
   \<and> map em_ootb_entity (entity_mappings (step2_map_ootb_entities ''t2''
         (step1_extract_requirements ''t1'' ''f.xlsx'' rows_vendor))) = [Organization]"
  using template_selection [of "step1_extract_requirements ''t1'' ''f.xlsx'' rows_vendor" "''t2''"]
  by (simp add: entities_rows_vendor)



section \<open>The zero-entity run\<close>

lemma custom_group_step_types:
  "\<forall>c \<in> set acc. cc_type c \<noteq> CustomEntity
   \<Longrightarrow> \<forall>c \<in> set (fold custom_group_step es acc). cc_type c \<noteq> CustomEntity"
proof (induction es arbitrary: acc)
  case Nil
  then show ?case by simp
next
  case (Cons e es)
  have "\<forall>c \<in> set (custom_group_step e acc). cc_type c \<noteq> CustomEntity"
    using Cons.prems by (simp add: custom_group_step_def)
  from Cons.IH [OF this] show ?case by simp
qed

lemma custom_entity_never: "custom_entity_of (consolidate s1) = []"
  by (simp add: custom_entity_of_def selected_template)

lemma one_entity_mapping: "length (entity_mappings (step2_map_ootb_entities now s1)) = 1"
  by (simp add: step2_map_ootb_entities_def entity_mappings_of_def selected_template Let_def)

lemma consolidate_no_entities:
  "business_entities s1 = [] \<Longrightarrow>
   consolidate s1 =
     \<lparr>selected_ootb_entity = Some Person, all_ootb_fields = ootb_person_attributes,
      all_custom_fields_with_fr = [], all_requirements_consolidated = [], printed = []\<rparr>"
  by (simp add: consolidate_def person_requirements_def organization_requirements_def
      ootb_person_attributes_def Let_def)

text \<open>
  C3 (as amended). Every run yields exactly one entity mapping and never the synthetic
  custom-entity record. When no business entity was discovered, that mapping is the
  ordinary one on the Person template: the Person standard fields without SSN and TaxID,
  no custom field and no merged requirement, and no custom component at all.
\<close>

theorem no_entities_person_mapping:
  "length (entity_mappings (step2_map_ootb_entities now s1)) = 1
   \<and> (\<forall>c \<in> set (custom_components (step2_map_ootb_entities now s1)). cc_type c \<noteq> CustomEntity)
   \<and> (business_entities s1 = [] \<longrightarrow>
        entity_mappings (step2_map_ootb_entities now s1) =
          [\<lparr>em_requirement = ''Unified MDM Entity'', em_ootb_entity = Person,
            em_justification = justification_text [] Person,
            em_ootb_fields_used = ootb_person_attributes,
            em_custom_fields_needed = [], em_custom_fields_with_fr = [],
            em_consolidated_requirements = []\<rparr>]
        \<and> custom_components (step2_map_ootb_entities now s1) = [])"
proof (intro conjI impI)
  show "length (entity_mappings (step2_map_ootb_entities now s1)) = 1"
    by (rule one_entity_mapping)
  show "\<forall>c \<in> set (custom_components (step2_map_ootb_entities now s1)). cc_type c \<noteq> CustomEntity"
    using custom_group_step_types [of "[]" "business_entities s1"]
    by (simp add: step2_map_ootb_entities_def custom_entity_never Let_def)
next
  assume none: "business_entities s1 = []"
  show "entity_mappings (step2_map_ootb_entities now s1) =
          [\<lparr>em_requirement = ''Unified MDM Entity'', em_ootb_entity = Person,
            em_justification = justification_text [] Person,
            em_ootb_fields_used = ootb_person_attributes,
            em_custom_fields_needed = [], em_custom_fields_with_fr = [],
            em_consolidated_requirements = []\<rparr>]"
    by (simp add: step2_map_ootb_entities_def entity_mappings_of_def
        consolidate_no_entities [OF none])
  show "custom_components (step2_map_ootb_entities now s1) = []"
    by (simp add: step2_map_ootb_entities_def custom_entity_never none Let_def)
qed

lemma business_entities_of_Nil: "business_entities_of [] = []"
  by (simp add: business_entities_of_def sorted_entities_def)

theorem no_entities_person_mapping_witness:
  "business_entities (step1_extract_requirements ''t1'' ''f.xlsx'' []) = []
   \<and> map em_ootb_entity (entity_mappings (step2_map_ootb_entities ''t2''
         (step1_extract_requirements ''t1'' ''f.xlsx'' []))) = [Person]
   \<and> custom_components (step2_map_ootb_entities ''t2''
         (step1_extract_requirements ''t1'' ''f.xlsx'' [])) = []"
proof -
  have none: "business_entities (step1_extract_requirements ''t1'' ''f.xlsx'' []) = []"
    by code_simp
  show ?thesis
    using none no_entities_person_mapping
      [of "''t2''" "step1_extract_requirements ''t1'' ''f.xlsx'' []"]
    by simp
qed

text \<open>
  On a sheet with one requirement and no repeated capitalised term nothing is
  discovered, and step 2 still answers with a Person mapping and no custom component.
\<close>

theorem synthetic_fallback_counterexample:
  "entities_found rows_no_terms = []
   \<and> business_entities (step1_extract_requirements ''t1'' ''f.xlsx'' rows_no_terms) = []
   \<and> map em_ootb_entity (entity_mappings (step2_map_ootb_entities ''t2''
         (step1_extract_requirements ''t1'' ''f.xlsx'' rows_no_terms))) = [Person]
   \<and> custom_components (step2_map_ootb_entities ''t2''
         (step1_extract_requirements ''t1'' ''f.xlsx'' rows_no_terms)) = []"
  by (simp add: entities_rows_no_terms business_entities_of_Nil step2_map_ootb_entities_def
      entity_mappings_of_def custom_entity_of_def selected_template Let_def)

section \<open>Model assembly\<close>

text \<open>
  C8. Model assembly raises its \<^verbatim>\<open>ValueError\<close> exactly when the consolidation document
  holds no entity mapping; with at least one mapping it returns a model of one entity.
\<close>

theorem assembly_fails_iff_no_mapping:
  "((\<exists>e. step3_design_data_model now s2 = Inl e) \<longleftrightarrow> entity_mappings s2 = [])
   \<and> (entity_mappings s2 \<noteq> [] \<longrightarrow>
        (\<exists>out. step3_design_data_model now s2 = Inr out \<and> length (entities out) = 1))"
  by (auto simp: step3_design_data_model_def Let_def split: list.splits)

theorem assembly_fails_iff_no_mapping_witness:
  "entity_mappings unmapped_output = []
   \<and> (\<exists>e. step3_design_data_model ''t3'' unmapped_output = Inl e)
   \<and> entity_mappings (step2_map_ootb_entities ''t2''
         (step1_extract_requirements ''t1'' ''f.xlsx'' rows_vendor)) \<noteq> []
   \<and> (\<exists>out. step3_design_data_model ''t3'' (step2_map_ootb_entities ''t2''
         (step1_extract_requirements ''t1'' ''f.xlsx'' rows_vendor)) = Inr out
         \<and> length (entities out) = 1)"
proof -
  have a: "entity_mappings unmapped_output = []"
    by (simp add: unmapped_output_def)
  have b: "entity_mappings (step2_map_ootb_entities ''t2''
         (step1_extract_requirements ''t1'' ''f.xlsx'' rows_vendor)) \<noteq> []"
    using one_entity_mapping
      [of "''t2''" "step1_extract_requirements ''t1'' ''f.xlsx'' rows_vendor"]
    by auto
  show ?thesis
    using a b assembly_fails_iff_no_mapping [of "''t3''" unmapped_output]
      assembly_fails_iff_no_mapping [of "''t3''" "step2_map_ootb_entities ''t2''
         (step1_extract_requirements ''t1'' ''f.xlsx'' rows_vendor)"]
    by blast
qed

section \<open>Attribute traceability\<close>

lemma fold_invariant:
  assumes "P s" and "\<And>x s. x \<in> set xs \<Longrightarrow> P s \<Longrightarrow> P (f x s)"
  shows "P (fold f xs s)"
  using assms by (induction xs arbitrary: s) auto

lemma set_update_cases:
  "p \<in> set (AList.update k v al) \<Longrightarrow> p = (k, v) \<or> p \<in> set al"
  by (induction al) (auto split: if_splits)

lemma record_attribute_keys:
  "fst ` set (record_attribute attr n d) = insert attr (fst ` set d)"
  by (auto simp: record_attribute_def dom_update split: option.splits dest: map_of_SomeD
      intro: rev_image_eqI)

lemma record_attribute_traceable:
  assumes "traceable J d" and "J attr n"
  shows "traceable J (record_attribute attr n d)"
proof (cases "map_of d attr")
  case None
  then show ?thesis
    using assms
    by (auto simp: traceable_def record_attribute_def distinct_update
        dest!: set_update_cases)
next
  case (Some frs)
  then have mem: "(attr, frs) \<in> set d" by (rule map_of_SomeD)
  show ?thesis
  proof (cases "n \<in> set frs")
    case True
    then show ?thesis using assms Some by (simp add: record_attribute_def)
  next
    case False
    from assms(1) mem have old: "frs \<noteq> [] \<and> distinct frs \<and> (\<forall>x \<in> set frs. J attr x)"
      by (auto simp: traceable_def)
    with False show ?thesis
      using assms Some
      by (auto simp: traceable_def record_attribute_def distinct_update
          dest!: set_update_cases)
  qed
qed

lemma attribute_pass_traceable:
  "traceable (justified table reqs) (attribute_pass table reqs)"
proof -
  have inner: "traceable (justified table reqs) (fold (scan_attribute fr) table acc)"
    if "fr \<in> set reqs" and "traceable (justified table reqs) acc" for fr acc
  proof (rule fold_invariant [where P = "traceable (justified table reqs)"])
    show "traceable (justified table reqs) acc" by (rule that)
  next
    fix entry s
    assume e: "entry \<in> set table" and s: "traceable (justified table reqs) s"
    obtain a kws where entry: "entry = (a, kws)" by (cases entry)
    show "traceable (justified table reqs) (scan_attribute fr entry s)"
    proof (cases "keyword_hit fr kws")
      case True
      then have "justified table reqs (attr_display_name a) (fr_number fr)"
        using e that(1) entry by (auto simp: justified_def)
      with s True show ?thesis
        by (simp add: scan_attribute_def entry keyword_hit_def record_attribute_traceable)
    next
      case False
      with s show ?thesis by (simp add: scan_attribute_def entry keyword_hit_def)
    qed
  qed
  show ?thesis
    unfolding attribute_pass_def
    by (rule fold_invariant [where P = "traceable (justified table reqs)"])
       (simp_all add: traceable_def inner [unfolded traceable_def])
qed

lemma scan_attribute_keys:
  "fst ` set (fold (scan_attribute fr) table acc) =
     fst ` set acc \<union> {attr_display_name a | a kws. (a, kws) \<in> set table \<and> keyword_hit fr kws}"
proof (induction table arbitrary: acc)
  case Nil
  then show ?case by simp
next
  case (Cons entry table)
  obtain a kws where entry: "entry = (a, kws)" by (cases entry)
  have step: "fst ` set (scan_attribute fr (a, kws) acc) =
      fst ` set acc \<union> (if keyword_hit fr kws then {attr_display_name a} else {})"
    by (simp add: scan_attribute_def record_attribute_keys keyword_hit_def)
  have "fst ` set (fold (scan_attribute fr) (entry # table) acc) =
      fst ` set (scan_attribute fr entry acc)
      \<union> {attr_display_name a | a kws. (a, kws) \<in> set table \<and> keyword_hit fr kws}"
    by (simp add: Cons.IH)
  also have "\<dots> = fst ` set acc
      \<union> {attr_display_name a | a kws. (a, kws) \<in> set (entry # table) \<and> keyword_hit fr kws}"
    unfolding entry step by (auto split: if_splits)
  finally show ?case .
qed

lemma attribute_pass_keys_from:
  "fst ` set (fold (\<lambda>fr acc. fold (scan_attribute fr) table acc) reqs acc) =
     fst ` set acc
     \<union> {attr_display_name a | a kws fr. fr \<in> set reqs \<and> (a, kws) \<in> set table \<and> keyword_hit fr kws}"
proof (induction reqs arbitrary: acc)
  case Nil
  then show ?case by simp
next
  case (Cons fr reqs)
  show ?case
    unfolding fold_simps Cons.IH scan_attribute_keys by auto
qed

lemma attribute_pass_keys:
  "fst ` set (attribute_pass table reqs) =
     {attr_display_name a | a kws fr. fr \<in> set reqs \<and> (a, kws) \<in> set table \<and> keyword_hit fr kws}"
  by (simp add: attribute_pass_def attribute_pass_keys_from)

text \<open>
  C5. Every attribute recorded by the attribute pass has a non-empty list of requirement
  numbers without duplicates, each the number of a requirement whose text holds one of
  the attribute's keywords; an attribute is recorded exactly when some requirement does.
\<close>

theorem attribute_traceability:
  "distinct (map fst (custom_attributes_with_fr reqs))
   \<and> (\<forall>(attr, frs) \<in> set (custom_attributes_with_fr reqs).
         frs \<noteq> [] \<and> distinct frs
         \<and> (\<forall>n \<in> set frs. \<exists>fr \<in> set reqs. fr_number fr = n
               \<and> (\<exists>(a, kws) \<in> set attribute_keywords. attr_display_name a = attr
                     \<and> (\<exists>keyword \<in> set kws. is_substr keyword (combined_text fr)))))
   \<and> (\<forall>attr. attr \<in> fst ` set (custom_attributes_with_fr reqs) \<longleftrightarrow>
         (\<exists>fr \<in> set reqs. \<exists>(a, kws) \<in> set attribute_keywords. attr_display_name a = attr
               \<and> (\<exists>keyword \<in> set kws. is_substr keyword (combined_text fr))))"
proof (intro conjI)
  have t: "traceable (justified attribute_keywords reqs) (custom_attributes_with_fr reqs)"
    unfolding custom_attributes_with_fr_def by (rule attribute_pass_traceable)
  show "distinct (map fst (custom_attributes_with_fr reqs))"
    using t by (simp add: traceable_def)
  show "\<forall>(attr, frs) \<in> set (custom_attributes_with_fr reqs).
         frs \<noteq> [] \<and> distinct frs
         \<and> (\<forall>n \<in> set frs. \<exists>fr \<in> set reqs. fr_number fr = n
               \<and> (\<exists>(a, kws) \<in> set attribute_keywords. attr_display_name a = attr
                     \<and> (\<exists>keyword \<in> set kws. is_substr keyword (combined_text fr))))"
    using t unfolding traceable_def justified_def keyword_hit_def by blast
  show "\<forall>attr. attr \<in> fst ` set (custom_attributes_with_fr reqs) \<longleftrightarrow>
         (\<exists>fr \<in> set reqs. \<exists>(a, kws) \<in> set attribute_keywords. attr_display_name a = attr
               \<and> (\<exists>keyword \<in> set kws. is_substr keyword (combined_text fr)))"
    unfolding custom_attributes_with_fr_def attribute_pass_keys keyword_hit_def by blast
qed

theorem attribute_traceability_witness:
  "(''Status'', [''FR1'']) \<in> set (custom_attributes_with_fr (functional_requirements_of rows_constituent))
   \<and> [''FR1''] \<noteq> [] \<and> distinct [''FR1'']
   \<and> (\<exists>fr \<in> set (functional_requirements_of rows_constituent). fr_number fr = ''FR1'')"
proof -
  show ?thesis
    using attribute_traceability [of "functional_requirements_of rows_constituent"]
    unfolding custom_attributes_rows_constituent by fastforce
qed

section \<open>Entity deduplication\<close>

lemma make_entity_type [simp]: "be_type (make_entity n c) = cand_type c"
  by (simp add: make_entity_def Let_def)

lemma make_entity_master_name:
  "is_master (cand_type c) \<Longrightarrow> be_name (make_entity n c) = type_name (cand_type c)"
  by (simp add: make_entity_def Let_def)

lemma build_entities_seen:
  "t \<in> set seen \<Longrightarrow> is_master t \<Longrightarrow> filter (\<lambda>e. be_type e = t) (build_entities seen xs) = []"
proof (induction xs arbitrary: seen)
  case Nil
  then show ?case by simp
next
  case (Cons x xs)
  obtain n c where x: "x = (n, c)" by (cases x)
  from Cons show ?case by (auto simp: x)
qed

lemma build_entities_first:
  "t \<notin> set seen \<Longrightarrow> is_master t \<Longrightarrow>
   filter (\<lambda>e. be_type e = t) (build_entities seen xs) =
     map (\<lambda>(n, c). make_entity n c) (take 1 (filter (\<lambda>e. cand_type (snd e) = t) xs))"
proof (induction xs arbitrary: seen)
  case Nil
  then show ?case by simp
next
  case (Cons x xs)
  obtain n c where x: "x = (n, c)" by (cases x)
  show ?case
  proof (cases "cand_type c = t")
    case True
    with Cons.prems show ?thesis
      by (simp add: x build_entities_seen)
  next
    case False
    with Cons show ?thesis by (auto simp: x)
  qed
qed

lemma build_entities_origin:
  "e \<in> set (build_entities seen xs) \<Longrightarrow> \<exists>(n, c) \<in> set xs. e = make_entity n c"
proof (induction xs arbitrary: seen)
  case Nil
  then show ?case by simp
next
  case (Cons x xs)
  obtain n c where x: "x = (n, c)" by (cases x)
  from Cons.prems Cons.IH show ?case
    by (fastforce simp: x split: if_splits)
qed

lemma sorted_entities_descending:
  "sorted_wrt (\<lambda>a b. cand_frequency (snd a) \<ge> cand_frequency (snd b)) (sorted_entities found)"
proof -
  have "sorted (map (\<lambda>e. - int (cand_frequency (snd e))) (sorted_entities found))"
    unfolding sorted_entities_def by (rule sorted_sort_key)
  then show ?thesis by (simp add: sorted_map)
qed

lemma first_of_type_is_most_frequent:
  assumes "sorted_wrt (\<lambda>a b. cand_frequency (snd a) \<ge> cand_frequency (snd b)) xs"
    and "filter P xs = x # rest" and "y \<in> set xs" and "P y"
  shows "cand_frequency (snd y) \<le> cand_frequency (snd x)"
proof -
  from assms(2) obtain us vs where xs: "xs = us @ x # vs" and us: "\<forall>u \<in> set us. \<not> P u"
    by (auto simp: filter_eq_Cons_iff)
  from assms(3,4) us xs have "y = x \<or> y \<in> set vs" by auto
  with assms(1) show ?thesis by (auto simp: xs sorted_wrt_append)
qed

text \<open>
  C6. The business entities hold at most one entity of each master role (Person,
  Organization, Product). The candidates are put in descending order of occurrence count
  first (a reordering of the candidates), and for each master role the entity kept is the
  one made from the first candidate of that role in this order, whose count no other
  candidate of the role exceeds.
\<close>

theorem entity_dedup:
  "(\<forall>t. is_master t \<longrightarrow>
        length (filter (\<lambda>e. be_type e = t) (business_entities_of found)) \<le> 1
        \<and> filter (\<lambda>e. be_type e = t) (business_entities_of found) =
            map (\<lambda>(n, c). make_entity n c)
                (take 1 (filter (\<lambda>e. cand_type (snd e) = t) (sorted_entities found))))
   \<and> sorted_wrt (\<lambda>a b. cand_frequency (snd a) \<ge> cand_frequency (snd b)) (sorted_entities found)
   \<and> set (sorted_entities found) = set found
   \<and> length (sorted_entities found) = length found
   \<and> (\<forall>e \<in> set (business_entities_of found). is_master (be_type e) \<longrightarrow>
        (\<exists>(n, c) \<in> set found. e = make_entity n c
           \<and> (\<forall>(n', c') \<in> set found. cand_type c' = be_type e
                 \<longrightarrow> cand_frequency c' \<le> cand_frequency c)))"
proof (intro conjI allI impI ballI)
  fix t assume m: "is_master t"
  show first: "filter (\<lambda>e. be_type e = t) (business_entities_of found) =
      map (\<lambda>(n, c). make_entity n c)
          (take 1 (filter (\<lambda>e. cand_type (snd e) = t) (sorted_entities found)))"
    unfolding business_entities_of_def using m by (simp add: build_entities_first)
  show "length (filter (\<lambda>e. be_type e = t) (business_entities_of found)) \<le> 1"
    unfolding first by simp
next
  show "sorted_wrt (\<lambda>a b. cand_frequency (snd a) \<ge> cand_frequency (snd b)) (sorted_entities found)"
    by (rule sorted_entities_descending)
  show "set (sorted_entities found) = set found"
    by (simp add: sorted_entities_def)
  show "length (sorted_entities found) = length found"
    by (simp add: sorted_entities_def)
next
  fix e assume e: "e \<in> set (business_entities_of found)" and m: "is_master (be_type e)"
  let ?t = "be_type e"
  let ?cands = "filter (\<lambda>x. cand_type (snd x) = ?t) (sorted_entities found)"
  have "e \<in> set (filter (\<lambda>x. be_type x = ?t) (business_entities_of found))"
    using e by simp
  then have "e \<in> set (map (\<lambda>(n, c). make_entity n c) (take 1 ?cands))"
    unfolding business_entities_of_def using m by (simp add: build_entities_first)
  then obtain x rest where cands: "?cands = x # rest" and ex: "e = (\<lambda>(n, c). make_entity n c) x"
    by (cases ?cands) auto
  obtain n c where x: "x = (n, c)" by (cases x)
  have "x \<in> set ?cands" by (simp add: cands)
  then have mem: "(n, c) \<in> set found" by (simp add: x sorted_entities_def)
  have most: "cand_frequency c' \<le> cand_frequency c"
    if "(n', c') \<in> set found" and "cand_type c' = ?t" for n' c'
    using first_of_type_is_most_frequent
      [OF sorted_entities_descending cands, of "(n', c')"] that
    by (simp add: x sorted_entities_def)
  show "\<exists>(n, c) \<in> set found. e = make_entity n c
           \<and> (\<forall>(n', c') \<in> set found. cand_type c' = be_type e
                 \<longrightarrow> cand_frequency c' \<le> cand_frequency c)"
    using mem ex most by (auto simp: x)
qed

theorem entity_dedup_witness:
  "is_master Person
   \<and> business_entities_of found_three =
       [\<lparr>be_name = ''Person'', be_type = Person, be_purpose = ''d''\<rparr>,
        \<lparr>be_name = ''Organization'', be_type = Organization, be_purpose = ''v''\<rparr>]
   \<and> length (filter (\<lambda>e. be_type e = Person) (business_entities_of found_three)) \<le> 1"
proof -
  have v: "business_entities_of found_three =
       [\<lparr>be_name = ''Person'', be_type = Person, be_purpose = ''d''\<rparr>,
        \<lparr>be_name = ''Organization'', be_type = Organization, be_purpose = ''v''\<rparr>]"
    by code_simp
  have m: "is_master Person" by (simp add: is_master_def)
  show ?thesis
    using entity_dedup [of found_three] m v by simp
qed

section \<open>Classifier precedence across rows\<close>

lemma starts_with_split: "starts_with l w \<Longrightarrow> w = l @ drop (length l) w"
  by (induction l w rule: starts_with.induct) auto

lemma starts_with_append [simp]: "starts_with l (l @ t)"
  by (induction l) auto

lemma starts_with_iff: "starts_with l w \<longleftrightarrow> (\<exists>t. w = l @ t)"
  using starts_with_split by fastforce

lemma final_pattern_exact:
  "re_match final_pattern w \<longleftrightarrow>
     (\<exists>k \<in> set field_group_words. w = k \<or> w = k @ [CHR 0x0A])"
proof -
  have "re_match final_pattern w \<longleftrightarrow>
      (\<exists>k \<in> set field_group_words. starts_with k w
          \<and> (drop (length k) w = [] \<or> drop (length k) w = [CHR 0x0A]))"
    by (auto simp: re_match_def final_pattern_def)
  also have "\<dots> \<longleftrightarrow> (\<exists>k \<in> set field_group_words. w = k \<or> w = k @ [CHR 0x0A])"
    by (auto simp: starts_with_iff)
  finally show ?thesis .
qed

lemma scan_rows_last:
  "fst (fold (scan_row w) df (et, ctx)) =
     (if rules_fired w df = [] then et else Some (last (rules_fired w df)))"
proof (induction df arbitrary: et ctx)
  case Nil
  then show ?case by (simp add: rules_fired_def)
next
  case (Cons r df)
  obtain et' ctx' where step: "scan_row w r (et, ctx) = (et', ctx')"
    by (cases "scan_row w r (et, ctx)")
  have et': "et' = (if is_substr w (lower (row_text r))
                   then (case row_entity_type w (lower (row_text r)) of
                           Some t \<Rightarrow> Some t | None \<Rightarrow> et)
                   else et)"
    using step by (auto simp: scan_row_def Let_def split: if_splits)
  show ?case
    by (simp add: step Cons.IH)
       (auto simp: et' rules_fired_def split: option.splits)
qed

text \<open>
  C2 (as amended). The per-row chain is run on every row that contains the term, in corpus
  order, and each row in which a branch is taken overwrites the type: the stored type is
  the one assigned by the last such row. Only when no row takes a branch is the type
  FieldGroup for a term that is exactly a field-group word (a trailing newline allowed by
  the end anchor) and Person otherwise.
\<close>

theorem last_firing_row_wins:
  "(rules_fired (lower word) df \<noteq> [] \<longrightarrow>
      cand_type (snd (classify_term df (word, count))) = last (rules_fired (lower word) df))
   \<and> (rules_fired (lower word) df = [] \<longrightarrow>
      cand_type (snd (classify_term df (word, count))) =
        (if \<exists>k \<in> set field_group_words. lower word = k \<or> lower word = k @ [CHR 0x0A]
         then FieldGroup else Person))"
proof -
  obtain et ctx where s: "scan_rows (lower word) df = (et, ctx)"
    by (cases "scan_rows (lower word) df")
  have "et = (if rules_fired (lower word) df = [] then None
              else Some (last (rules_fired (lower word) df)))"
    using scan_rows_last [of "lower word" df None "[]"] s by (simp add: scan_rows_def)
  then show ?thesis
    by (simp add: classify_term_def s final_type_def final_pattern_exact)
qed

theorem last_firing_row_wins_witness:
  "rules_fired (lower ''Donor'') rows_two_cues \<noteq> []
   \<and> cand_type (snd (classify_term rows_two_cues (''Donor'', 4))) =
       last (rules_fired (lower ''Donor'') rows_two_cues)"
proof -
  have v: "rules_fired (lower ''Donor'') rows_two_cues \<noteq> []"
    by code_simp
  show ?thesis
    using v last_firing_row_wins [of "''Donor''" rows_two_cues 4] by simp
qed

text \<open>
  The first row gives the term \<^verbatim>\<open>Donor\<close> the type Person, the second Organization, and
  Organization is what is stored.
\<close>

theorem first_rule_wins_counterexample:
  "rules_fired ''donor'' rows_two_cues = [Person, Organization]
   \<and> map (\<lambda>e. (fst e, cand_type (snd e))) (entities_found rows_two_cues)
       = [(''Donor'', Organization)]"
  by code_simp

section \<open>Term retention\<close>

lemma is_substr_iff: "is_substr a s \<longleftrightarrow> (\<exists>u v. s = u @ a @ v)"
proof (induction s)
  case Nil
  then show ?case by auto
next
  case (Cons c cs)
  show ?case
  proof
    assume "is_substr a (c # cs)"
    then consider "starts_with a (c # cs)" | "is_substr a cs" by auto
    then show "\<exists>u v. c # cs = u @ a @ v"
    proof cases
      case 1
      then obtain t where "c # cs = a @ t" by (auto simp: starts_with_iff)
      then have "c # cs = [] @ a @ t" by simp
      then show ?thesis by blast
    next
      case 2
      then obtain u v where "cs = u @ a @ v" using Cons.IH by auto
      then have "c # cs = (c # u) @ a @ v" by simp
      then show ?thesis by blast
    qed
  next
    assume "\<exists>u v. c # cs = u @ a @ v"
    then obtain u v where uv: "c # cs = u @ a @ v" by auto
    show "is_substr a (c # cs)"
    proof (cases u)
      case Nil
      then have "starts_with a (c # cs)" using uv by (auto simp: starts_with_iff)
      then show ?thesis by simp
    next
      case (Cons d u')
      then have "cs = u' @ a @ v" using uv by simp
      then have "is_substr a cs" using Cons.IH by auto
      then show ?thesis by simp
    qed
  qed
qed

lemma is_substr_lower: "is_substr a s \<Longrightarrow> is_substr (lower a) (lower s)"
  unfolding is_substr_iff lower_def by (metis map_append)

lemma is_substr_take: "is_substr (take n s) s"
  unfolding is_substr_iff by (metis append_Nil append_take_drop_id)

lemma is_substr_Cons: "is_substr a cs \<Longrightarrow> is_substr a (c # cs)"
  by simp

lemma findall_from_substr:
  "w \<in> set (findall_from pat k p s) \<Longrightarrow> is_substr w s"
proof (induction pat k p s rule: findall_from.induct)
  case (1 pat k p)
  then show ?case by (auto split: if_splits)
next
  case (2 pat k p c cs)
  then show ?case by auto
next
  case (3 pat p c cs)
  show ?case
  proof (cases "match_seq pat (p, c # cs)")
    case Nil
    with 3 show ?thesis by auto
  next
    case (Cons st sts)
    obtain p' s' where st: "st = (p', s')" by (cases st)
    let ?n = "length (c # cs) - length s'"
    from "3.prems" Cons st
    have "w = take ?n (c # cs) \<or> w \<in> set (findall_from pat (?n - 1) (Some c) cs)"
      by (auto simp: Let_def)
    then show ?thesis
    proof
      assume "w = take ?n (c # cs)"
      then show ?thesis using is_substr_take [of ?n "c # cs"] by simp
    next
      assume "w \<in> set (findall_from pat (?n - 1) (Some c) cs)"
      then have "is_substr w cs"
        using "3.IH"(2) [OF Cons st [symmetric] refl] by simp
      then show ?thesis by simp
    qed
  qed
qed

lemma capitalized_word_in_text:
  "w \<in> set (capitalized_words df) \<Longrightarrow> is_substr (lower w) (all_text_lower df)"
  unfolding capitalized_words_def re_findall_def all_text_lower_def all_text_original_def
  by (intro is_substr_lower findall_from_substr)

lemma count_word_keys: "distinct (map fst acc) \<Longrightarrow> distinct (map fst (count_word w acc))"
  by (simp add: count_word_def distinct_update)

lemma count_word_map_of:
  "map_of (count_word w acc) v =
     (if v = w then Some (case map_of acc w of None \<Rightarrow> 1 | Some n \<Rightarrow> n + 1) else map_of acc v)"
  by (simp add: count_word_def update_conv')

lemma fold_count_word:
  "distinct (map fst acc) \<Longrightarrow>
   distinct (map fst (fold count_word ws acc))
   \<and> map_of (fold count_word ws acc) v =
       (case map_of acc v of
          None \<Rightarrow> if v \<in> set ws then Some (count_list ws v) else None
        | Some n \<Rightarrow> Some (n + count_list ws v))"
proof (induction ws arbitrary: acc)
  case Nil
  then show ?case by (simp split: option.splits)
next
  case (Cons w ws)
  from Cons.IH [OF count_word_keys [OF Cons.prems]] show ?case
    by (auto simp: count_word_map_of split: option.splits)
qed

lemma Counter_distinct: "distinct (map fst (Counter ws))"
  using fold_count_word [of "[]" ws] by (simp add: Counter_def)

lemma Counter_mem:
  "(w, n) \<in> set (Counter ws) \<longleftrightarrow> w \<in> set ws \<and> n = count_list ws w"
proof -
  have "(w, n) \<in> set (Counter ws) \<longleftrightarrow> map_of (Counter ws) w = Some n"
    using Counter_distinct by simp
  also have "\<dots> \<longleftrightarrow> w \<in> set ws \<and> n = count_list ws w"
    using fold_count_word [of "[]" ws w] by (auto simp: Counter_def)
  finally show ?thesis .
qed

lemma entities_found_keys:
  "map fst (entities_found df) = map fst (filter (retained df) (word_counts df))"
  by (simp add: entities_found_def classify_term_def split_def comp_def)

lemma retained_iff:
  "(w, n) \<in> set (filter (retained df) (word_counts df)) \<longleftrightarrow>
     w \<in> set (capitalized_words df) \<and> n = count_list (capitalized_words df) w
     \<and> 3 \<le> n \<and> w \<notin> set noise_words \<and> w \<notin> set source_system_names"
  using capitalized_word_in_text [of w df]
  by (auto simp: retained_def word_counts_def Counter_mem exclude_words_def)

text \<open>
  C7. A capitalised term found in the original-case text of all requirements becomes a
  candidate exactly when it occurs at least three times and is neither a noise word nor
  a source-system name; each candidate appears once, with its number of occurrences as
  frequency.
\<close>

theorem term_retention:
  "(w \<in> set (map fst (entities_found df)) \<longleftrightarrow>
      w \<in> set (capitalized_words df) \<and> 3 \<le> count_list (capitalized_words df) w
      \<and> w \<notin> set noise_words \<and> w \<notin> set source_system_names)
   \<and> distinct (map fst (entities_found df))
   \<and> (\<forall>(w', c) \<in> set (entities_found df).
         cand_frequency c = count_list (capitalized_words df) w')"
proof (intro conjI)
  have "w \<in> set (map fst (entities_found df)) \<longleftrightarrow>
      (\<exists>n. (w, n) \<in> set (filter (retained df) (word_counts df)))"
    unfolding entities_found_keys by force
  then show "w \<in> set (map fst (entities_found df)) \<longleftrightarrow>
      w \<in> set (capitalized_words df) \<and> 3 \<le> count_list (capitalized_words df) w
      \<and> w \<notin> set noise_words \<and> w \<notin> set source_system_names"
    unfolding retained_iff by blast
  show "distinct (map fst (entities_found df))"
    unfolding entities_found_keys word_counts_def
    by (rule distinct_map_filter) (rule Counter_distinct)
  show "\<forall>(w', c) \<in> set (entities_found df).
         cand_frequency c = count_list (capitalized_words df) w'"
  proof (clarify)
    fix w' c assume "(w', c) \<in> set (entities_found df)"
    then obtain n where n: "(w', n) \<in> set (filter (retained df) (word_counts df))"
      and c: "(w', c) = classify_term df (w', n)"
      by (auto simp: entities_found_def classify_term_def split: prod.splits)
    from c have "cand_frequency c = n"
      by (auto simp: classify_term_def split: prod.splits)
    with n show "cand_frequency c = count_list (capitalized_words df) w'"
      unfolding retained_iff by simp
  qed
qed

theorem term_retention_witness:
  "capitalized_words rows_constituent = [''Each'', ''Constituent'', ''Constituent'', ''Constituent'']
   \<and> ''Constituent'' \<in> set (map fst (entities_found rows_constituent))
   \<and> ''Each'' \<notin> set (map fst (entities_found rows_constituent))"
proof -
  have v: "capitalized_words rows_constituent =
      [''Each'', ''Constituent'', ''Constituent'', ''Constituent'']"
    by code_simp
  have a: "''Constituent'' \<notin> set noise_words \<and> ''Constituent'' \<notin> set source_system_names"
    by code_simp
  show ?thesis
    using term_retention [of "''Constituent''" rows_constituent]
      term_retention [of "''Each''" rows_constituent] a
    unfolding v by simp
qed

section \<open>The key of the attribute table\<close>

lemma master_entity_name:
  assumes "e \<in> set (business_entities_of found)" and "is_master (be_type e)"
  shows "be_name e = type_name (be_type e)"
proof -
  from assms(1) obtain n c where "e = make_entity n c"
    unfolding business_entities_of_def by (auto dest!: build_entities_origin)
  with assms(2) show ?thesis by (simp add: make_entity_master_name)
qed

lemma main_entity_name_cases:
  "main_entity_name (business_entities_of found) =
     (if \<exists>e \<in> set (business_entities_of found). be_type e = Person
      then ''Person'' else ''Constituent'')"
proof (cases "filter (\<lambda>entity. be_type entity = Person) (business_entities_of found)")
  case Nil
  then show ?thesis
    by (auto simp: main_entity_name_def filter_empty_conv)
next
  case (Cons e es)
  then have "e \<in> set (filter (\<lambda>entity. be_type entity = Person) (business_entities_of found))"
    by simp
  then have e: "e \<in> set (business_entities_of found)" "be_type e = Person" by auto
  then have "be_name e = ''Person''"
    using master_entity_name [of e found] by (simp add: is_master_def)
  with Cons e show ?thesis by (auto simp: main_entity_name_def)
qed

lemma attributes_step1:
  "attributes (step1_extract_requirements now excel_file df) =
     attributes_of (business_entities_of (entities_found df))
       (custom_attributes_with_fr (functional_requirements_of df))"
  by (simp add: step1_extract_requirements_def Let_def)

lemma attributes_keys:
  "map fst (attributes (step1_extract_requirements now excel_file df)) =
     [main_entity_name (business_entities_of (entities_found df))]"
  by (simp add: attributes_step1 attributes_of_def)

lemma fold_unchanged:
  "(\<And>x s. x \<in> set xs \<Longrightarrow> f x s = s) \<Longrightarrow> fold f xs s = s"
  by (induction xs) auto

lemma no_person_no_custom_fields:
  assumes names: "\<forall>e \<in> set (business_entities s1). be_type e = Organization
                    \<longrightarrow> map_of (attributes s1) (be_name e) = None"
    and none: "\<not> (\<exists>e \<in> set (business_entities s1). be_type e = Person)"
  shows "all_custom_fields_with_fr (consolidate s1) = []"
proof -
  have p: "person_requirements s1 = []"
    using none by (simp add: person_requirements_def filter_empty_conv)
  have o: "fold (org_req_step s1) (organization_requirements s1) [] = []"
    by (rule fold_unchanged)
       (use names in \<open>auto simp: organization_requirements_def org_req_step_def\<close>)
  show ?thesis
    by (simp add: consolidate_def p o Let_def)
qed

text \<open>
  C10 (as amended). The attribute table of the extraction document has one key: the name
  of the first Person-role entity, which is \<^verbatim>\<open>Person\<close>, or \<^verbatim>\<open>Constituent\<close> when there is
  no Person-role entity. In a run without a Person-role entity that key is the name of
  no Person-role or Organization-role entity, and the consolidated mapping has no custom
  field.
\<close>

theorem constituent_key_isolated:
  "map fst (attributes (step1_extract_requirements now excel_file df)) =
     [main_entity_name (business_entities (step1_extract_requirements now excel_file df))]
   \<and> ((\<exists>e \<in> set (business_entities (step1_extract_requirements now excel_file df)).
          be_type e = Person)
        \<longrightarrow> map fst (attributes (step1_extract_requirements now excel_file df)) = [''Person''])
   \<and> (\<not> (\<exists>e \<in> set (business_entities (step1_extract_requirements now excel_file df)).
            be_type e = Person)
        \<longrightarrow> map fst (attributes (step1_extract_requirements now excel_file df)) = [''Constituent'']
          \<and> (\<forall>e \<in> set (business_entities (step1_extract_requirements now excel_file df)).
                be_type e = Person \<or> be_type e = Organization \<longrightarrow> be_name e \<noteq> ''Constituent'')
          \<and> (\<forall>m \<in> set (entity_mappings (step2_map_ootb_entities now'
                  (step1_extract_requirements now excel_file df))).
                em_custom_fields_needed m = [] \<and> em_custom_fields_with_fr m = []))"
proof (intro conjI impI ballI)
  let ?s1 = "step1_extract_requirements now excel_file df"
  let ?found = "entities_found df"
  show "map fst (attributes ?s1) = [main_entity_name (business_entities ?s1)]"
    by (simp add: attributes_keys)
  {
    assume "\<exists>e \<in> set (business_entities ?s1). be_type e = Person"
    then show "map fst (attributes ?s1) = [''Person'']"
      by (simp add: attributes_keys main_entity_name_cases)
  }
  assume none: "\<not> (\<exists>e \<in> set (business_entities ?s1). be_type e = Person)"
  show key: "map fst (attributes ?s1) = [''Constituent'']"
    using none by (simp add: attributes_keys main_entity_name_cases)
  have name: "be_name e = type_name (be_type e)"
    if "e \<in> set (business_entities ?s1)" "be_type e = Person \<or> be_type e = Organization" for e
    using that master_entity_name [of e ?found] by (auto simp: is_master_def)
  {
    fix e assume "e \<in> set (business_entities ?s1)" "be_type e = Person \<or> be_type e = Organization"
    from name [OF this] this(2) show "be_name e \<noteq> ''Constituent''" by auto
  }
  have lookup: "\<forall>e \<in> set (business_entities ?s1). be_type e = Organization
                    \<longrightarrow> map_of (attributes ?s1) (be_name e) = None"
  proof (intro ballI impI)
    fix e assume e: "e \<in> set (business_entities ?s1)" "be_type e = Organization"
    then have "be_name e = ''Organization''" using name [of e] by simp
    then have "be_name e \<notin> set (map fst (attributes ?s1))" unfolding key by simp
    then show "map_of (attributes ?s1) (be_name e) = None"
      by (simp add: map_of_eq_None_iff)
  qed
  have empty: "all_custom_fields_with_fr (consolidate ?s1) = []"
    by (rule no_person_no_custom_fields [OF lookup none])
  fix m assume "m \<in> set (entity_mappings (step2_map_ootb_entities now' ?s1))"
  then have m: "em_custom_fields_with_fr m = all_custom_fields_with_fr (consolidate ?s1)"
    "em_custom_fields_needed m = map fst (all_custom_fields_with_fr (consolidate ?s1))"
    by (auto simp: step2_map_ootb_entities_def entity_mappings_of_def Let_def
        split: option.splits)
  show "em_custom_fields_needed m = []" by (simp add: m empty)
  show "em_custom_fields_with_fr m = []" by (simp add: m empty)
qed

theorem constituent_key_isolated_witness:
  "\<not> (\<exists>e \<in> set (business_entities (step1_extract_requirements ''t1'' ''f.xlsx'' rows_vendor)).
          be_type e = Person)
   \<and> map fst (attributes (step1_extract_requirements ''t1'' ''f.xlsx'' rows_vendor)) = [''Constituent'']
   \<and> map em_custom_fields_with_fr (entity_mappings (step2_map_ootb_entities ''t2''
          (step1_extract_requirements ''t1'' ''f.xlsx'' rows_vendor))) = [[]]"
proof -
  have none: "\<not> (\<exists>e \<in> set (business_entities
      (step1_extract_requirements ''t1'' ''f.xlsx'' rows_vendor)). be_type e = Person)"
    by (simp add: entities_rows_vendor)
  have one: "length (entity_mappings (step2_map_ootb_entities ''t2''
      (step1_extract_requirements ''t1'' ''f.xlsx'' rows_vendor))) = 1"
    by (rule one_entity_mapping)
  then obtain m where m: "entity_mappings (step2_map_ootb_entities ''t2''
      (step1_extract_requirements ''t1'' ''f.xlsx'' rows_vendor)) = [m]"
    by (auto simp: length_Suc_conv)
  from none constituent_key_isolated [of "''t1''" "''f.xlsx''" rows_vendor "''t2''"]
  have "map fst (attributes (step1_extract_requirements ''t1'' ''f.xlsx'' rows_vendor)) =
          [''Constituent'']
      \<and> (\<forall>m \<in> set (entity_mappings (step2_map_ootb_entities ''t2''
              (step1_extract_requirements ''t1'' ''f.xlsx'' rows_vendor))).
            em_custom_fields_needed m = [] \<and> em_custom_fields_with_fr m = [])"
    by blast
  with none show ?thesis
    unfolding m by simp
qed

text \<open>
  A run without a Person-role entity in which the key \<^verbatim>\<open>Constituent\<close>, under which the
  attribute \<^verbatim>\<open>Status\<close> is stored, is the name of a discovered entity (a custom field
  group).
\<close>

theorem constituent_key_counterexample:
  "map be_type (business_entities (step1_extract_requirements ''t1'' ''f.xlsx'' rows_constituent))
     = [CustomFieldGroup]
   \<and> map fst (attributes (step1_extract_requirements ''t1'' ''f.xlsx'' rows_constituent))
     = [''Constituent'']
   \<and> map (custom_with_fr \<circ> snd)
         (attributes (step1_extract_requirements ''t1'' ''f.xlsx'' rows_constituent))
     = [Some [(''Status'', [''FR1''])]]
   \<and> map be_name (business_entities (step1_extract_requirements ''t1'' ''f.xlsx'' rows_constituent))
     = [''Constituent'']"
  by (simp add: entities_rows_constituent attributes_step1 attributes_of_def
      main_entity_name_def custom_attributes_rows_constituent)

section \<open>No unjustified custom field\<close>















lemma consolidate_cases:
  obtains (person) "person_requirements s1 \<noteq> [] \<or> organization_requirements s1 = []"
      "consolidate s1 =
         \<lparr>selected_ootb_entity = Some Person,
          all_ootb_fields = ootb_person_attributes,
          all_custom_fields_with_fr =
            fst (fold (org_req_step_in_person s1 ootb_person_attributes)
                      (organization_requirements s1)
                      (fold (person_req_step s1) (person_requirements s1) [], [])),
          all_requirements_consolidated = person_requirements s1 @ organization_requirements s1,
          printed =
            snd (fold (org_req_step_in_person s1 ootb_person_attributes)
                      (organization_requirements s1)
                      (fold (person_req_step s1) (person_requirements s1) [], []))\<rparr>"
  | (org) "person_requirements s1 = []" "organization_requirements s1 \<noteq> []"
      "consolidate s1 =
         \<lparr>selected_ootb_entity = Some Organization,
          all_ootb_fields = OOTB_ENTITIES Organization,
          all_custom_fields_with_fr =
            fold (org_req_step s1) (organization_requirements s1) [],
          all_requirements_consolidated = organization_requirements s1,
          printed = []\<rparr>"
proof (cases "person_requirements s1 \<noteq> [] \<or> organization_requirements s1 = []")
  case True
  show ?thesis
  proof (rule person [OF True])
    show "consolidate s1 =
         \<lparr>selected_ootb_entity = Some Person,
          all_ootb_fields = ootb_person_attributes,
          all_custom_fields_with_fr =
            fst (fold (org_req_step_in_person s1 ootb_person_attributes)
                      (organization_requirements s1)
                      (fold (person_req_step s1) (person_requirements s1) [], [])),
          all_requirements_consolidated = person_requirements s1 @ organization_requirements s1,
          printed =
            snd (fold (org_req_step_in_person s1 ootb_person_attributes)
                      (organization_requirements s1)
                      (fold (person_req_step s1) (person_requirements s1) [], []))\<rparr>"
    proof (cases "organization_requirements s1 = []")
      case True
      then show ?thesis
        unfolding consolidate_def Let_def ootb_person_attributes_def by simp
    next
      case False
      with True show ?thesis
        unfolding consolidate_def Let_def ootb_person_attributes_def by simp
    qed
  qed
next
  case False
  then have p: "person_requirements s1 = []" and o: "organization_requirements s1 \<noteq> []"
    by auto
  show ?thesis
  proof (rule org [OF p o])
    show "consolidate s1 =
         \<lparr>selected_ootb_entity = Some Organization,
          all_ootb_fields = OOTB_ENTITIES Organization,
          all_custom_fields_with_fr =
            fold (org_req_step s1) (organization_requirements s1) [],
          all_requirements_consolidated = organization_requirements s1,
          printed = []\<rparr>"
      unfolding consolidate_def Let_def using p o by simp
  qed
qed




text \<open>
  In a document written by step 1 an Organization-role entity is named
  \<^verbatim>\<open>Organization\<close> and the attribute table is keyed \<^verbatim>\<open>Person\<close> or \<^verbatim>\<open>Constituent\<close>, so
  the loop over the other template's fields is never entered and no message about a
  skipped field is printed.
\<close>

lemma organization_name_not_key:
  assumes "e \<in> set (organization_requirements (step1_extract_requirements now excel_file df))"
  shows "map_of (attributes (step1_extract_requirements now excel_file df)) (be_name e) = None"
proof -
  let ?s1 = "step1_extract_requirements now excel_file df"
  from assms have e: "e \<in> set (business_entities_of (entities_found df))"
    "be_type e = Organization"
    by (auto simp: organization_requirements_def)
  then have "be_name e = ''Organization''"
    using master_entity_name [of e "entities_found df"] by (simp add: is_master_def)
  moreover have "map fst (attributes ?s1) = [''Person'']
      \<or> map fst (attributes ?s1) = [''Constituent'']"
    by (simp add: attributes_keys main_entity_name_cases)
  ultimately have "be_name e \<notin> set (map fst (attributes ?s1))" by auto
  then show ?thesis by (simp add: map_of_eq_None_iff)
qed

lemma step1_document_prints_nothing:
  "step2_printed (step1_extract_requirements now excel_file df) = []"
proof (cases "step1_extract_requirements now excel_file df" rule: consolidate_cases)
  case person
  let ?s1 = "step1_extract_requirements now excel_file df"
  have "fold (org_req_step_in_person ?s1 ootb_person_attributes)
          (organization_requirements ?s1) st = st" for st
    by (rule fold_unchanged)
       (simp add: org_req_step_in_person_def organization_name_not_key split: prod.splits)
  then show ?thesis
    unfolding step2_printed_def person(2) by simp
next
  case org
  show ?thesis
    unfolding step2_printed_def org(3) by simp
qed






end
